theory Spec2Isabelle
  imports Main
begin

section \<open>Python strings and integer parsing\<close>

text \<open>
  A Python \<open>str\<close> is modelled as a \<open>string\<close> whose characters are the code points
  below 256; \<open>len\<close> is \<open>length\<close>.  The character classes below are the ones CPython uses
  on that range: \<open>str.isspace\<close> (also what \<open>str.strip()\<close> removes), the narrower
  whitespace that \<open>int()\<close> skips, \<open>str.isdigit\<close> (which accepts the superscripts
  two, three and one at 178, 179 and 185) and the decimal digits that \<open>int()\<close> and the
  regular-expression class \<open>\d\<close> accept.
\<close>

definition py_isspace :: "char \<Rightarrow> bool" where
  "py_isspace c =
     (let n = (of_char c :: nat)
      in (9 \<le> n \<and> n \<le> 13) \<or> (28 \<le> n \<and> n \<le> 32) \<or> n = 133 \<or> n = 160)"

definition int_isspace :: "char \<Rightarrow> bool" where
  "int_isspace c =
     (let n = (of_char c :: nat)
      in (9 \<le> n \<and> n \<le> 13) \<or> n = 32 \<or> n = 133 \<or> n = 160)"

definition is_decimal :: "char \<Rightarrow> bool" where
  "is_decimal c = (let n = (of_char c :: nat) in 48 \<le> n \<and> n \<le> 57)"

definition py_isdigit_char :: "char \<Rightarrow> bool" where
  "py_isdigit_char c =
     (let n = (of_char c :: nat) in (48 \<le> n \<and> n \<le> 57) \<or> n = 178 \<or> n = 179 \<or> n = 185)"

text \<open>\<open>s.isdigit()\<close>: false on the empty string.\<close>

definition isdigit :: "string \<Rightarrow> bool" where
  "isdigit s = (s \<noteq> [] \<and> list_all py_isdigit_char s)"

definition strip_with :: "(char \<Rightarrow> bool) \<Rightarrow> string \<Rightarrow> string" where
  "strip_with p s = rev (dropWhile p (rev (dropWhile p s)))"

text \<open>\<open>s.strip()\<close>\<close>

definition strip :: "string \<Rightarrow> string" where
  "strip s = strip_with py_isspace s"

text \<open>\<open>s.endswith(suf)\<close>\<close>

definition endswith :: "string \<Rightarrow> string \<Rightarrow> bool" where
  "endswith s suf = (length suf \<le> length s \<and> drop (length s - length suf) s = suf)"

definition digit_val :: "char \<Rightarrow> nat" where
  "digit_val c = of_char c - 48"

definition digits_value :: "string \<Rightarrow> nat" where
  "digits_value ds = foldl (\<lambda>a c. 10 * a + digit_val c) 0 ds"

text \<open>
  The digits of a decimal literal, where a single underscore may stand between two
  digits; \<open>None\<close> where the text is not of that shape.
\<close>

fun int_body :: "string \<Rightarrow> string option" where
  "int_body [] = None"
| "int_body [c] = (if is_decimal c then Some [c] else None)"
| "int_body (c # d # cs) =
     (if is_decimal c
      then (if d = CHR ''_'' then map_option (Cons c) (int_body cs)
            else map_option (Cons c) (int_body (d # cs)))
      else None)"

text \<open>
  \<open>int(s)\<close> for a \<open>str\<close>: surrounding whitespace is skipped, one sign is allowed, and a
  literal of more than 4300 digits is refused (the default of
  \<open>sys.set_int_max_str_digits\<close>).  \<open>None\<close> stands for \<open>ValueError\<close>.
\<close>

definition py_int :: "string \<Rightarrow> int option" where
  "py_int s =
     (case strip_with int_isspace s of
        [] \<Rightarrow> None
      | c # cs \<Rightarrow>
          (let neg = (c = CHR ''-'');
               body = (if c = CHR ''-'' \<or> c = CHR ''+'' then cs else c # cs)
           in case int_body body of
                None \<Rightarrow> None
              | Some ds \<Rightarrow>
                  if 4300 < length ds then None
                  else Some (if neg then - int (digits_value ds) else int (digits_value ds))))"

text \<open>\<open>str_to_int_maybe\<close>: \<open>int(s)\<close>, with every exception turned into \<open>None\<close>.\<close>

definition str_to_int_maybe :: "string \<Rightarrow> int option" where
  "str_to_int_maybe s = py_int s"

text \<open>\<open>str(n)\<close> for an \<open>int\<close>, as the f-strings of the source render an identity.\<close>

definition digit_char :: "nat \<Rightarrow> char" where
  "digit_char d = ''0123456789'' ! d"

fun nat_digits :: "nat \<Rightarrow> string" where
  "nat_digits n =
     (if n < 10 then [digit_char n]
      else nat_digits (n div 10) @ [digit_char (n mod 10)])"

declare nat_digits.simps [simp del]

definition py_str :: "int \<Rightarrow> string" where
  "py_str n = (if n < 0 then CHR ''-'' # nat_digits (nat (- n)) else nat_digits (nat n))"

section \<open>Settings\<close>

text \<open>
  The values \<open>settings.json\<close> holds: \<open>null\<close>, an integer or a string.  The settings
  are a dictionary; \<open>settings.get(k)\<close> is \<open>None\<close> for a missing key as for a key
  holding \<open>null\<close>.
\<close>

datatype jvalue = JNull | JInt int | JStr string

type_synonym settings = "string \<rightharpoonup> jvalue"

definition settings_get :: "settings \<Rightarrow> string \<Rightarrow> jvalue" where
  "settings_get s k = (case s k of None \<Rightarrow> JNull | Some v \<Rightarrow> v)"

text \<open>Python truthiness of a settings value.\<close>

fun truthy :: "jvalue \<Rightarrow> bool" where
  "truthy JNull = False"
| "truthy (JInt n) = (n \<noteq> 0)"
| "truthy (JStr s) = (s \<noteq> [])"

datatype exn = ValueError | TypeError | OSError | HTTPException

text \<open>\<open>int(v)\<close> on a settings value.\<close>

fun int_of_jvalue :: "jvalue \<Rightarrow> exn + int" where
  "int_of_jvalue JNull = Inl TypeError"
| "int_of_jvalue (JInt n) = Inr n"
| "int_of_jvalue (JStr s) = (case py_int s of None \<Rightarrow> Inl ValueError | Some n \<Rightarrow> Inr n)"

text \<open>
  The defaults \<open>load_settings\<close> writes on the first run.  The two message texts are
  Russian in the source and are given here in English.
\<close>

definition default_settings :: settings where
  "default_settings =
     [''ticket_message_text'' \<mapsto> JStr ''Press the button to open a ticket:'',
      ''ticket_button_channel_id'' \<mapsto> JNull,
      ''log_channel_id'' \<mapsto> JNull,
      ''ticket_category_id'' \<mapsto> JNull,
      ''staff_role_id'' \<mapsto> JNull,
      ''accepted_role_id'' \<mapsto> JNull,
      ''accept_message'' \<mapsto> JStr ''Your ticket has been accepted!'',
      ''reject_message'' \<mapsto> JStr ''Your ticket has been rejected.'']"

section \<open>The chat platform\<close>

text \<open>
  Identities (users, roles, channels, interactions) are integers.  The guild, its
  channels and what the platform has been asked to do are one state, \<open>world\<close>, that
  every handler takes and returns.  The texts the bot sends are Russian in the source;
  each is a constructor of \<open>msg\<close> here, named after what it says.
\<close>

datatype target = DefaultRole | Role int | Member int

record overwrite =
  view_channel :: "bool option"
  send_messages :: "bool option"
  read_message_history :: "bool option"

text \<open>
  The overwrite every grant of the source uses, and the two others it builds:
  hiding the channel from everyone, and a role that may read but not write.
\<close>

definition allow_all :: overwrite where
  "allow_all =
     \<lparr>view_channel = Some True, send_messages = Some True, read_message_history = Some True\<rparr>"

definition hide_channel :: overwrite where
  "hide_channel = \<lparr>view_channel = Some False, send_messages = None, read_message_history = None\<rparr>"

definition read_only :: overwrite where
  "read_only =
     \<lparr>view_channel = Some True, send_messages = Some False, read_message_history = Some True\<rparr>"

datatype msg =
    MsgNickLength           \<comment> \<open>the nickname must have 3 to 50 characters\<close>
  | MsgAgeInvalid           \<comment> \<open>the age must be a number of 1-2 digits\<close>
  | MsgPurposeLength        \<comment> \<open>the purpose must have 50 to 500 characters\<close>
  | MsgFromWhereLength      \<comment> \<open>the referral source must have 1 to 50 characters\<close>
  | MsgReadRulesLength      \<comment> \<open>the rules answer must have 1 to 20 characters\<close>
  | MsgTicketCreated int    \<comment> \<open>ticket created, with the mention of its channel\<close>
  | MsgIdMustBeNumber       \<comment> \<open>the value must be a number (an ID)\<close>
  | MsgSettingUpdated string
  | MsgStaffRoleNotConfigured
  | MsgNoRightToTake        \<comment> \<open>you have no right to take the ticket\<close>
  | MsgAlreadyTaken         \<comment> \<open>this ticket is already taken\<close>
  | MsgOnlyTakerMayDoThis   \<comment> \<open>only the moderator who took the ticket may do this\<close>
  | MsgOnlyTakerMayReject
  | MsgOnlyTakerMayDelete
  | MsgAccepted             \<comment> \<open>ticket accepted and the user notified (if possible)\<close>
  | MsgChannelDeleting
  | MsgIdNotRecognised      \<comment> \<open>could not recognise a user ID\<close>
  | MsgBadId
  | MsgUserNotFound         \<comment> \<open>the user was not found on the server\<close>
  | MsgModeratorAdded
  | MsgSetPermissionsFailed \<comment> \<open>could not set the permissions or send the message\<close>

datatype modal = RejectReasonModal | AddModeratorModal

record member =
  m_id :: int
  m_name :: string

text \<open>
  The two views a ticket message carries, with the attributes of the source.  The
  taken view is built from \<open>self.taken_by\<close>, so its \<open>taker_id\<close> has the type of that
  attribute.
\<close>

record TicketInitialView =
  owner :: member
  nick_text :: string
  age :: string
  purpose :: string
  from_where :: string
  read_rules :: string
  taken_by :: "int option"

record TicketTakenView =
  tv_owner :: member
  tv_nick_text :: string
  taker_id :: "int option"
  tv_age :: string
  tv_purpose :: string
  tv_from_where :: string
  tv_read_rules :: string

datatype view = InitialShown | TakenShown TicketTakenView

text \<open>What is posted in a channel, and the embed sent to a user directly.\<close>

datatype post =
    TicketPost member string string string string string
  | AddedPost int

datatype dm = AcceptedDM string

record channel =
  ch_name :: string
  ch_topic :: string
  ch_category :: "int option"
  ch_overwrites :: "target \<rightharpoonup> overwrite"
  ch_posts :: "post list"
  ch_view :: "view option"

text \<open>
  The awaited calls of the source, and the write of the settings file.  The first
  argument of the three \<open>interaction.response\<close> calls is the interaction.
\<close>

datatype call =
    Respond int msg
  | SendModal int modal
  | EditMessage int "int option" TicketTakenView
  | CreateTextChannel string "(target \<times> overwrite) list" "int option" string
  | ChannelSend int post
  | SetPermissions int target overwrite
  | ChannelDelete int
  | MemberEdit int string
  | AddRoles int int
  | MemberSend int dm
  | FetchMember int
  | SaveSettings

datatype level = Debug | Info | Warning | Error | Critical

datatype log_text =
    LogAccepted int TicketTakenView
  | LogModeratorAdded int int

record log_entry =
  le_target :: int
  le_level :: level
  le_text :: log_text
  le_moderator :: "int option"
  le_owner :: "int option"
  le_channel :: "int option"
  le_reason :: "string option"

record world =
  settings :: settings
  settings_file :: "settings option"
  guild_roles :: "int set"
  guild_members :: "int set"
  guild_me :: int
  channels :: "int \<rightharpoonup> channel"
  next_id :: int
  nick_of :: "int \<rightharpoonup> string"
  roles_of :: "int \<Rightarrow> int set"
  inbox :: "(int \<times> dm) list"
  log_tasks :: "log_entry list"
  trace :: "(call \<times> bool) list"
  raises :: "call \<Rightarrow> bool"

text \<open>
  An awaited call either raises or takes effect.  Which calls raise is a parameter of
  the world (\<open>raises\<close>); a call on a channel that no longer exists raises as well.
  Every call made is recorded in \<open>trace\<close> with whether it returned.
\<close>

definition update_channel :: "int \<Rightarrow> (channel \<Rightarrow> channel) \<Rightarrow> world \<Rightarrow> world" where
  "update_channel cid f w =
     (case channels w cid of
        None \<Rightarrow> w
      | Some ch \<Rightarrow> w\<lparr>channels := (channels w)(cid \<mapsto> f ch)\<rparr>)"

fun effect :: "call \<Rightarrow> world \<Rightarrow> world" where
  "effect (Respond i m) w = w"
| "effect (SendModal i md) w = w"
| "effect (EditMessage i c v) w =
     (case c of
        None \<Rightarrow> w
      | Some cid \<Rightarrow> update_channel cid (\<lambda>ch. ch\<lparr>ch_view := Some (TakenShown v)\<rparr>) w)"
| "effect (CreateTextChannel name ovs cat topic) w =
     w\<lparr>channels := (channels w)(next_id w \<mapsto>
          \<lparr>ch_name = name, ch_topic = topic, ch_category = cat,
           ch_overwrites = map_of (rev ovs), ch_posts = [], ch_view = None\<rparr>),
       next_id := next_id w + 1\<rparr>"
| "effect (ChannelSend cid p) w =
     update_channel cid
       (\<lambda>ch. ch\<lparr>ch_posts := ch_posts ch @ [p],
               ch_view := (case p of TicketPost a b c d e f \<Rightarrow> Some InitialShown
                           | AddedPost m \<Rightarrow> ch_view ch)\<rparr>) w"
| "effect (SetPermissions cid t ov) w =
     update_channel cid (\<lambda>ch. ch\<lparr>ch_overwrites := (ch_overwrites ch)(t \<mapsto> ov)\<rparr>) w"
| "effect (ChannelDelete cid) w = w\<lparr>channels := (channels w)(cid := None)\<rparr>"
| "effect (MemberEdit mid n) w = w\<lparr>nick_of := (nick_of w)(mid \<mapsto> n)\<rparr>"
| "effect (AddRoles mid rid) w =
     w\<lparr>roles_of := (roles_of w)(mid := insert rid (roles_of w mid))\<rparr>"
| "effect (MemberSend mid d) w = w\<lparr>inbox := inbox w @ [(mid, d)]\<rparr>"
| "effect (FetchMember mid) w = w"
| "effect SaveSettings w = w\<lparr>settings_file := Some (settings w)\<rparr>"

fun call_channel :: "call \<Rightarrow> int option" where
  "call_channel (ChannelSend cid p) = Some cid"
| "call_channel (SetPermissions cid t ov) = Some cid"
| "call_channel (ChannelDelete cid) = Some cid"
| "call_channel c = None"

definition call_raises :: "world \<Rightarrow> call \<Rightarrow> bool" where
  "call_raises w c =
     (raises w c \<or> (case call_channel c of None \<Rightarrow> False | Some cid \<Rightarrow> channels w cid = None))"

definition perform :: "call \<Rightarrow> world \<Rightarrow> bool \<times> world" where
  "perform c w =
     (if call_raises w c then (False, w\<lparr>trace := trace w @ [(c, False)]\<rparr>)
      else (True, (effect c w)\<lparr>trace := trace w @ [(c, True)]\<rparr>))"

text \<open>The cache lookups \<open>guild.get_role\<close>, \<open>guild.get_member\<close>, \<open>guild.get_channel\<close>.\<close>

definition get_role :: "world \<Rightarrow> int \<Rightarrow> int option" where
  "get_role w rid = (if rid \<in> guild_roles w then Some rid else None)"

definition get_member :: "world \<Rightarrow> int \<Rightarrow> int option" where
  "get_member w mid = (if mid \<in> guild_members w then Some mid else None)"

definition get_channel :: "world \<Rightarrow> int \<Rightarrow> int option" where
  "get_channel w cid = (if channels w cid = None then None else Some cid)"

record actor =
  u_id :: int
  u_admin :: bool
  u_roles :: "int set"

record interaction =
  i_id :: int
  i_user :: actor
  i_channel :: "int option"

text \<open>
  How a handler ends: its reply was sent, or the reply (or another call outside any
  \<open>try\<close>) raised and the exception left the handler.
\<close>

datatype outcome =
    Replied msg
  | ReplyFailed msg
  | ModalSent modal
  | ModalFailed modal
  | ViewEdited
  | ViewEditFailed
  | Raised exn

text \<open>\<open>await interaction.response.send_message(m)\<close> as the last statement of a handler.\<close>

definition respond :: "interaction \<Rightarrow> msg \<Rightarrow> world \<Rightarrow> outcome \<times> world" where
  "respond i m w =
     (let (ok, w') = perform (Respond (i_id i) m) w
      in (if ok then Replied m else ReplyFailed m, w'))"

definition send_modal :: "interaction \<Rightarrow> modal \<Rightarrow> world \<Rightarrow> outcome \<times> world" where
  "send_modal i md w =
     (let (ok, w') = perform (SendModal (i_id i) md) w
      in (if ok then ModalSent md else ModalFailed md, w'))"

section \<open>The audit log\<close>

text \<open>
  \<open>send_log_embed\<close> builds the embed and hands its sending to the event loop; nothing
  happens when no log channel is set or the setting does not convert to an integer.
  The fields for the owner, the channel and the reason are added when they are truthy.
\<close>

definition nonzero :: "int option \<Rightarrow> int option" where
  "nonzero x = (case x of None \<Rightarrow> None | Some n \<Rightarrow> if n = 0 then None else Some n)"

definition nonempty :: "string option \<Rightarrow> string option" where
  "nonempty x = (case x of None \<Rightarrow> None | Some r \<Rightarrow> if r = [] then None else Some r)"

definition send_log_embed ::
  "level \<Rightarrow> log_text \<Rightarrow> int option \<Rightarrow> int option \<Rightarrow> int option \<Rightarrow> string option
     \<Rightarrow> world \<Rightarrow> world" where
  "send_log_embed lvl text moderator owner_id channel_id reason w =
     (let target = settings_get (settings w) ''log_channel_id''
      in if \<not> truthy target then w
         else (case int_of_jvalue target of
                 Inl e \<Rightarrow> w
               | Inr target_id \<Rightarrow>
                   w\<lparr>log_tasks := log_tasks w @
                       [\<lparr>le_target = target_id, le_level = lvl, le_text = text,
                         le_moderator = moderator, le_owner = nonzero owner_id,
                         le_channel = nonzero channel_id, le_reason = nonempty reason\<rparr>]\<rparr>))"

section \<open>The settings editor\<close>

text \<open>
  \<open>save_settings\<close> writes the dictionary to the file; an \<open>OSError\<close> leaves the handler.
  \<open>GenericValueModal.on_submit\<close> stores the submitted text under the chosen key, as an
  integer when the key ends in \<open>_id\<close>.
\<close>

definition save_settings :: "world \<Rightarrow> bool \<times> world" where
  "save_settings w = perform SaveSettings w"

definition GenericValueModal_on_submit ::
  "string \<Rightarrow> string \<Rightarrow> interaction \<Rightarrow> world \<Rightarrow> outcome \<times> world" where
  "GenericValueModal_on_submit key new_val i w =
     (if endswith key ''_id''
      then (case str_to_int_maybe new_val of
              None \<Rightarrow> respond i MsgIdMustBeNumber w
            | Some conv \<Rightarrow>
                (let (ok, w') = save_settings (w\<lparr>settings := (settings w)(key \<mapsto> JInt conv)\<rparr>)
                 in if ok then respond i (MsgSettingUpdated key) w' else (Raised OSError, w')))
      else (let (ok, w') = save_settings (w\<lparr>settings := (settings w)(key \<mapsto> JStr new_val)\<rparr>)
            in if ok then respond i (MsgSettingUpdated key) w' else (Raised OSError, w')))"

section \<open>Intake\<close>

record TicketModal =
  author :: member
  nick :: string
  tm_age :: string
  tm_purpose :: string
  tm_from_where :: string
  tm_read_rules :: string

text \<open>
  \<open>TicketModal.on_submit\<close>: the five values are stripped and checked in the order of the
  source; then the channel is created, the ticket is posted in it with the initial view,
  and the requester is told.  \<open>int()\<close> on a setting, the creation of the channel and the
  post are outside any \<open>try\<close>, so their exceptions leave the handler.
\<close>

definition TicketModal_on_submit :: "TicketModal \<Rightarrow> interaction \<Rightarrow> world \<Rightarrow> outcome \<times> world" where
  "TicketModal_on_submit self i w =
     (let nick_val = strip (nick self);
          age_val = strip (tm_age self);
          purpose_val = strip (tm_purpose self);
          from_where_val = strip (tm_from_where self);
          read_rules_val = strip (tm_read_rules self)
      in if \<not> (3 \<le> length nick_val \<and> length nick_val \<le> 50) then respond i MsgNickLength w
         else if \<not> (1 \<le> length age_val \<and> length age_val \<le> 2) \<or> \<not> isdigit age_val
           then respond i MsgAgeInvalid w
         else if \<not> (50 \<le> length purpose_val \<and> length purpose_val \<le> 500)
           then respond i MsgPurposeLength w
         else if \<not> (1 \<le> length from_where_val \<and> length from_where_val \<le> 50)
           then respond i MsgFromWhereLength w
         else if \<not> (1 \<le> length read_rules_val \<and> length read_rules_val \<le> 20)
           then respond i MsgReadRulesLength w
         else
           (let staff_role_id = settings_get (settings w) ''staff_role_id'';
                category_id = settings_get (settings w) ''ticket_category_id'';
                overwrites =
                  [(DefaultRole, hide_channel),
                   (Member (m_id (author self)), allow_all),
                   (Member (guild_me w), allow_all)]
            in case (if truthy staff_role_id
                     then (case int_of_jvalue staff_role_id of
                             Inl e \<Rightarrow> Inl e
                           | Inr rid \<Rightarrow>
                               (case get_role w rid of
                                  None \<Rightarrow> Inr overwrites
                                | Some role \<Rightarrow> Inr (overwrites @ [(Role role, allow_all)])))
                     else Inr overwrites) of
                 Inl e \<Rightarrow> (Raised e, w)
               | Inr overwrites' \<Rightarrow>
                   (case (if truthy category_id
                          then (case int_of_jvalue category_id of
                                  Inl e \<Rightarrow> Inl e
                                | Inr cat \<Rightarrow> Inr (get_channel w cat))
                          else Inr None) of
                      Inl e \<Rightarrow> (Raised e, w)
                    | Inr category \<Rightarrow>
                        (let channel_name = take 90 (''ticket-'' @ m_name (author self));
                             cid = next_id w;
                             (ok, w1) =
                               perform (CreateTextChannel channel_name overwrites' category
                                          (''ticket_owner:'' @ py_str (m_id (author self)))) w
                         in if \<not> ok then (Raised HTTPException, w1)
                            else (let (ok2, w2) =
                                        perform (ChannelSend cid
                                                   (TicketPost (author self) nick_val age_val
                                                      purpose_val from_where_val read_rules_val)) w1
                                  in if \<not> ok2 then (Raised HTTPException, w2)
                                     else respond i (MsgTicketCreated cid) w2)))))"

section \<open>Claiming a ticket\<close>

text \<open>
  \<open>TicketInitialView.take_button\<close> is a coroutine: it runs without interruption from one
  \<open>await\<close> to the next, and other handlers run while it is suspended.  Its state is
  where it stands: not started, suspended in an awaited call (the call, made with the
  arguments evaluated when it was reached, and the place in the source), or finished.
  \<open>take_step\<close> resumes it once: the awaited call completes and the handler runs on to
  its next \<open>await\<close>.  The view object \<open>self\<close> and the world are shared with every other
  handler.
\<close>

datatype take_at =
    AtPermRole        \<comment> \<open>\<open>ch.set_permissions(role, ...)\<close>\<close>
  | AtPermUser        \<comment> \<open>\<open>ch.set_permissions(interaction.user, ...)\<close>\<close>
  | AtPermOwner       \<comment> \<open>\<open>ch.set_permissions(owner_member, ...)\<close>\<close>
  | AtEdit            \<comment> \<open>\<open>interaction.response.edit_message(...)\<close>\<close>
  | AtReply msg       \<comment> \<open>\<open>return await interaction.response.send_message(...)\<close>\<close>

datatype take_pc = Start | Await call take_at | Done outcome

definition new_view :: "TicketInitialView \<Rightarrow> TicketTakenView" where
  "new_view self =
     \<lparr>tv_owner = owner self, tv_nick_text = nick_text self, taker_id = taken_by self,
      tv_age = age self, tv_purpose = purpose self, tv_from_where = from_where self,
      tv_read_rules = read_rules self\<rparr>"

definition await_edit :: "TicketInitialView \<Rightarrow> interaction \<Rightarrow> take_pc" where
  "await_edit self i = Await (EditMessage (i_id i) (i_channel i) (new_view self)) AtEdit"

definition await_perm_user :: "interaction \<Rightarrow> int \<Rightarrow> take_pc" where
  "await_perm_user i ch = Await (SetPermissions ch (Member (u_id (i_user i))) allow_all) AtPermUser"

text \<open>The lines from the role check to the first \<open>await\<close>.\<close>

definition take_start ::
  "interaction \<Rightarrow> TicketInitialView \<Rightarrow> world \<Rightarrow> TicketInitialView \<times> take_pc" where
  "take_start i self w =
     (let staff_role_id = settings_get (settings w) ''staff_role_id''
      in if staff_role_id = JNull
         then (self, Await (Respond (i_id i) MsgStaffRoleNotConfigured)
                       (AtReply MsgStaffRoleNotConfigured))
         else (case int_of_jvalue staff_role_id of
                 Inl e \<Rightarrow> (self, Done (Raised e))
               | Inr rid \<Rightarrow>
                   (let role = get_role w rid;
                        allowed = ((role \<noteq> None \<and> rid \<in> u_roles (i_user i))
                                   \<or> u_admin (i_user i))
                    in if \<not> allowed
                       then (self, Await (Respond (i_id i) MsgNoRightToTake)
                                     (AtReply MsgNoRightToTake))
                       else if taken_by self \<noteq> None
                       then (self, Await (Respond (i_id i) MsgAlreadyTaken)
                                     (AtReply MsgAlreadyTaken))
                       else
                         (let self' = self\<lparr>taken_by := Some (u_id (i_user i))\<rparr>
                          in (self',
                              case i_channel i of
                                None \<Rightarrow> await_edit self' i
                              | Some ch \<Rightarrow>
                                  (if truthy staff_role_id
                                   then (case get_role w rid of
                                           None \<Rightarrow> await_perm_user i ch
                                         | Some r \<Rightarrow>
                                             Await (SetPermissions ch (Role r) read_only)
                                               AtPermRole)
                                   else await_perm_user i ch))))))"

text \<open>
  Resuming after a call: an exception in one of the three permission calls ends the
  \<open>try\<close> block, and the handler goes on to \<open>edit_message\<close>.
\<close>

definition take_resume ::
  "interaction \<Rightarrow> TicketInitialView \<Rightarrow> world \<Rightarrow> take_at \<Rightarrow> bool \<Rightarrow> take_pc" where
  "take_resume i self w at ok =
     (case at of
        AtPermRole \<Rightarrow>
          (if ok then (case i_channel i of
                         None \<Rightarrow> await_edit self i
                       | Some ch \<Rightarrow> await_perm_user i ch)
           else await_edit self i)
      | AtPermUser \<Rightarrow>
          (if ok then (case (i_channel i, get_member w (m_id (owner self))) of
                         (Some ch, Some owner_member) \<Rightarrow>
                           Await (SetPermissions ch (Member owner_member) allow_all) AtPermOwner
                       | _ \<Rightarrow> await_edit self i)
           else await_edit self i)
      | AtPermOwner \<Rightarrow> await_edit self i
      | AtEdit \<Rightarrow> Done (if ok then ViewEdited else ViewEditFailed)
      | AtReply m \<Rightarrow> Done (if ok then Replied m else ReplyFailed m))"

fun take_step ::
  "interaction \<Rightarrow> TicketInitialView \<times> world \<times> take_pc \<Rightarrow> TicketInitialView \<times> world \<times> take_pc" where
  "take_step i (self, w, Start) = (let (self', pc) = take_start i self w in (self', w, pc))"
| "take_step i (self, w, Await c at) =
     (let (ok, w') = perform c w in (self, w', take_resume i self w' at ok))"
| "take_step i (self, w, Done out) = (self, w, Done out)"

text \<open>The handler run alone, from its start to its end.\<close>

fun take_rank :: "take_pc \<Rightarrow> nat" where
  "take_rank Start = 5"
| "take_rank (Await c AtPermRole) = 4"
| "take_rank (Await c AtPermUser) = 3"
| "take_rank (Await c AtPermOwner) = 2"
| "take_rank (Await c AtEdit) = 1"
| "take_rank (Await c (AtReply m)) = 1"
| "take_rank (Done out) = 0"

function take_run ::
  "interaction \<Rightarrow> TicketInitialView \<times> world \<times> take_pc \<Rightarrow> outcome \<times> TicketInitialView \<times> world" where
  "take_run i (self, w, Done out) = (out, self, w)"
| "take_run i (self, w, Start) = take_run i (take_step i (self, w, Start))"
| "take_run i (self, w, Await c at) = take_run i (take_step i (self, w, Await c at))"
  by pat_completeness auto
termination
  by (relation "measure (\<lambda>(i, self, w, pc). take_rank pc)")
     (auto simp: take_start_def take_resume_def await_edit_def await_perm_user_def Let_def
           split: if_splits sum.splits option.splits take_at.splits prod.splits)

definition take_button ::
  "TicketInitialView \<Rightarrow> interaction \<Rightarrow> world \<Rightarrow> outcome \<times> TicketInitialView \<times> world" where
  "take_button self i w = take_run i (self, w, Start)"

text \<open>
  Two presses of the button on the same view, as the event loop may run them: the
  schedule says which of the two handlers is resumed next (resuming a finished handler
  does nothing).
\<close>

fun interleave ::
  "interaction \<Rightarrow> interaction \<Rightarrow> bool list
     \<Rightarrow> TicketInitialView \<times> world \<times> take_pc \<times> take_pc
     \<Rightarrow> TicketInitialView \<times> world \<times> take_pc \<times> take_pc" where
  "interleave ia ib [] st = st"
| "interleave ia ib (first # sched) (self, w, pa, pb) =
     (if first
      then (let (self', w', pa') = take_step ia (self, w, pa)
            in interleave ia ib sched (self', w', pa', pb))
      else (let (self', w', pb') = take_step ib (self, w, pb)
            in interleave ia ib sched (self', w', pa, pb')))"

section \<open>A claimed ticket\<close>

definition is_taker_or_admin :: "TicketTakenView \<Rightarrow> interaction \<Rightarrow> bool" where
  "is_taker_or_admin self i = (Some (u_id (i_user i)) = taker_id self \<or> u_admin (i_user i))"

text \<open>The signature line of the direct message, and an f-string's text of a settings value.\<close>

definition signature :: string where
  "signature = ''-# Regards, the Abyss team''"

fun render :: "jvalue \<Rightarrow> string" where
  "render JNull = ''None''"
| "render (JInt n) = py_str n"
| "render (JStr s) = s"

text \<open>
  \<open>TicketTakenView.accept_final\<close>.  Each of the three calls on the member is in a
  \<open>try\<close> of its own, so its result is dropped; \<open>int(accepted_role_id)\<close> and the reply
  are outside any \<open>try\<close>.  After the reply come the log entry and the deletion of the
  channel.
\<close>

definition accept_final :: "TicketTakenView \<Rightarrow> interaction \<Rightarrow> world \<Rightarrow> outcome \<times> world" where
  "accept_final self i w =
     (if \<not> is_taker_or_admin self i then respond i MsgOnlyTakerMayDoThis w
      else
        (case (case get_member w (m_id (tv_owner self)) of
                 None \<Rightarrow> Inr w
               | Some member \<Rightarrow>
                   (let (ok1, w1) = perform (MemberEdit member (tv_nick_text self)) w;
                        accepted_role_id = settings_get (settings w1) ''accepted_role_id''
                    in case (if truthy accepted_role_id
                             then (case int_of_jvalue accepted_role_id of
                                     Inl e \<Rightarrow> Inl (e, w1)
                                   | Inr rid \<Rightarrow>
                                       (case get_role w1 rid of
                                          None \<Rightarrow> Inr w1
                                        | Some role \<Rightarrow> Inr (snd (perform (AddRoles member role) w1))))
                             else Inr w1) of
                         Inl ew \<Rightarrow> Inl ew
                       | Inr w2 \<Rightarrow>
                           (let accept_text = settings_get (settings w2) ''accept_message'';
                                description =
                                  (if truthy accept_text
                                   then render accept_text @ [CHR 0x0A, CHR 0x0A] @ signature
                                   else signature)
                            in Inr (snd (perform (MemberSend member (AcceptedDM description)) w2))))) of
           Inl (e, w') \<Rightarrow> (Raised e, w')
         | Inr w3 \<Rightarrow>
             (let (ok, w4) = perform (Respond (i_id i) MsgAccepted) w3
              in if \<not> ok then (ReplyFailed MsgAccepted, w4)
                 else
                   (let chan = i_channel i;
                        taker = i_user i;
                        owner_id = m_id (tv_owner self);
                        w5 = send_log_embed Info (LogAccepted (u_id taker) self)
                               (Some (u_id taker)) (Some owner_id) chan None w4
                    in (Replied MsgAccepted,
                        case chan of
                          None \<Rightarrow> w5
                        | Some c \<Rightarrow> snd (perform (ChannelDelete c) w5))))))"

text \<open>
  \<open>reject_ticket\<close> and \<open>add_moderator\<close> open a form for an actor who passes the check;
  \<open>delete_ticket\<close> replies and deletes the channel.
\<close>

definition reject_ticket :: "TicketTakenView \<Rightarrow> interaction \<Rightarrow> world \<Rightarrow> outcome \<times> world" where
  "reject_ticket self i w =
     (if \<not> is_taker_or_admin self i then respond i MsgOnlyTakerMayReject w
      else send_modal i RejectReasonModal w)"

definition delete_ticket :: "TicketTakenView \<Rightarrow> interaction \<Rightarrow> world \<Rightarrow> outcome \<times> world" where
  "delete_ticket self i w =
     (if \<not> is_taker_or_admin self i then respond i MsgOnlyTakerMayDelete w
      else
        (let (ok, w1) = perform (Respond (i_id i) MsgChannelDeleting) w
         in if \<not> ok then (ReplyFailed MsgChannelDeleting, w1)
            else (Replied MsgChannelDeleting,
                  case i_channel i of
                    None \<Rightarrow> w1
                  | Some c \<Rightarrow> snd (perform (ChannelDelete c) w1))))"

definition add_moderator :: "TicketTakenView \<Rightarrow> interaction \<Rightarrow> world \<Rightarrow> outcome \<times> world" where
  "add_moderator self i w =
     (if \<not> is_taker_or_admin self i then respond i MsgOnlyTakerMayDoThis w
      else send_modal i AddModeratorModal w)"

text \<open>
  \<open>re.search(r"\d{17,20}", raw)\<close>: at the first position where at least 17 decimal
  digits stand in a row, the longest run of at most 20 of them.
\<close>

fun re_search_digits :: "string \<Rightarrow> string option" where
  "re_search_digits [] = None"
| "re_search_digits (c # cs) =
     (let run = takeWhile is_decimal (c # cs)
      in if 17 \<le> length run then Some (take 20 run) else re_search_digits cs)"

text \<open>
  \<open>AddModeratorModal.on_submit\<close>, with the interaction of the form.  The three calls
  after the member is found share one \<open>try\<close>, whose handler sends the failure message.
\<close>

definition AddModeratorModal_on_submit :: "string \<Rightarrow> interaction \<Rightarrow> world \<Rightarrow> outcome \<times> world" where
  "AddModeratorModal_on_submit moderator i w =
     (let raw = strip moderator
      in case re_search_digits raw of
           None \<Rightarrow> respond i MsgIdNotRecognised w
         | Some m \<Rightarrow>
             (case py_int m of
                None \<Rightarrow> respond i MsgBadId w
              | Some mid \<Rightarrow>
                  (let (member, w1) =
                         (case get_member w mid of
                            Some mem \<Rightarrow> (Some mem, w)
                          | None \<Rightarrow>
                              (let (ok, w') = perform (FetchMember mid) w
                               in (if ok then Some mid else None, w')))
                   in case member of
                        None \<Rightarrow> respond i MsgUserNotFound w1
                      | Some mem \<Rightarrow>
                          (case i_channel i of
                             None \<Rightarrow> respond i MsgSetPermissionsFailed w1
                           | Some ch \<Rightarrow>
                               (let (ok2, w2) = perform (SetPermissions ch (Member mem) allow_all) w1
                                in if \<not> ok2 then respond i MsgSetPermissionsFailed w2
                                   else
                                     (let (ok3, w3) = perform (ChannelSend ch (AddedPost mem)) w2
                                      in if \<not> ok3 then respond i MsgSetPermissionsFailed w3
                                         else
                                           (let (ok4, w4) =
                                                  perform (Respond (i_id i) MsgModeratorAdded) w3
                                            in if \<not> ok4 then respond i MsgSetPermissionsFailed w4
                                               else (Replied MsgModeratorAdded,
                                                     send_log_embed Info
                                                       (LogModeratorAdded mem (u_id (i_user i)))
                                                       (Some mem) None (Some ch) None w4))))))))"

section \<open>A guild for the examples\<close>

text \<open>
  A guild with the staff role 10 and the accepted role 20, three cached members (of
  whom member 2 holds the staff role), one ticket channel 500 opened by member 1, and
  a platform on which no call raises.
\<close>

definition requester :: member where
  "requester = \<lparr>m_id = 1, m_name = ''steve''\<rparr>"

definition ticket_channel :: channel where
  "ticket_channel =
     \<lparr>ch_name = ''ticket-steve'', ch_topic = ''ticket_owner:1'', ch_category = None,
      ch_overwrites = [DefaultRole \<mapsto> hide_channel, Member 1 \<mapsto> allow_all,
                       Member 99 \<mapsto> allow_all, Role 10 \<mapsto> allow_all],
      ch_posts = [], ch_view = Some InitialShown\<rparr>"

definition guild0 :: world where
  "guild0 =
     \<lparr>settings = default_settings(''staff_role_id'' \<mapsto> JInt 10),
      settings_file = Some (default_settings(''staff_role_id'' \<mapsto> JInt 10)),
      guild_roles = {10, 20},
      guild_members = {1, 2, 3},
      guild_me = 99,
      channels = [500 \<mapsto> ticket_channel],
      next_id = 501,
      nick_of = Map.empty,
      roles_of = (\<lambda>m. if m = 2 then {10} else {}),
      inbox = [],
      log_tasks = [],
      trace = [],
      raises = (\<lambda>c. False)\<rparr>"

definition staff_press :: interaction where
  "staff_press = \<lparr>i_id = 7001, i_user = \<lparr>u_id = 2, u_admin = False, u_roles = {10}\<rparr>,
                   i_channel = Some 500\<rparr>"

definition admin_press :: interaction where
  "admin_press = \<lparr>i_id = 7002, i_user = \<lparr>u_id = 3, u_admin = True, u_roles = {}\<rparr>,
                   i_channel = Some 500\<rparr>"

definition outsider_press :: interaction where
  "outsider_press = \<lparr>i_id = 7003, i_user = \<lparr>u_id = 4, u_admin = False, u_roles = {}\<rparr>,
                      i_channel = Some 500\<rparr>"

section \<open>The invariant of the specification for identity settings\<close>

text \<open>
  The specification asks that a setting whose key ends in \<open>_id\<close> be absent (null) or a
  positive integer.  \<open>null_or_int\<close> is what the code maintains instead.
\<close>

fun spec_null_or_positive :: "jvalue \<Rightarrow> bool" where
  "spec_null_or_positive JNull = True"
| "spec_null_or_positive (JInt n) = (0 < n)"
| "spec_null_or_positive (JStr s) = False"

fun null_or_int :: "jvalue \<Rightarrow> bool" where
  "null_or_int JNull = True"
| "null_or_int (JInt n) = True"
| "null_or_int (JStr s) = False"

section \<open>Predicates on claim attempts\<close>

text \<open>
  \<open>may_take\<close>: a staff role is configured (as something \<open>int()\<close> accepts) and the actor
  holds it or is an administrator; this is the check of \<open>take_button\<close>.  \<open>claim_path\<close> are the
  places of a handler that has recorded its actor as claimant, \<open>told_taken\<close> those of one that
  answers that the ticket is already taken, and \<open>race_inv\<close> is what holds of two handlers
  on one view however they are interleaved.
\<close>

definition may_take :: "world \<Rightarrow> interaction \<Rightarrow> bool" where
  "may_take w i =
     (case int_of_jvalue (settings_get (settings w) ''staff_role_id'') of
        Inl e \<Rightarrow> False
      | Inr rid \<Rightarrow> (rid \<in> guild_roles w \<and> rid \<in> u_roles (i_user i)) \<or> u_admin (i_user i))"

fun claim_path :: "take_pc \<Rightarrow> bool" where
  "claim_path Start = False"
| "claim_path (Await c AtPermRole) = True"
| "claim_path (Await c AtPermUser) = True"
| "claim_path (Await c AtPermOwner) = True"
| "claim_path (Await c AtEdit) = True"
| "claim_path (Await c (AtReply m)) = False"
| "claim_path (Done out) = (out = ViewEdited \<or> out = ViewEditFailed)"

fun told_taken :: "take_pc \<Rightarrow> bool" where
  "told_taken Start = False"
| "told_taken (Await c (AtReply m)) = (m = MsgAlreadyTaken)"
| "told_taken (Await c at) = False"
| "told_taken (Done out) = (out = Replied MsgAlreadyTaken \<or> out = ReplyFailed MsgAlreadyTaken)"

definition race_inv ::
  "interaction \<Rightarrow> interaction \<Rightarrow> TicketInitialView \<times> world \<times> take_pc \<times> take_pc \<Rightarrow> bool" where
  "race_inv ia ib st =
     (case st of (self, w, pa, pb) \<Rightarrow>
        may_take w ia \<and> may_take w ib \<and>
        ((taken_by self = None \<and> pa = Start \<and> pb = Start)
         \<or> (taken_by self = Some (u_id (i_user ia)) \<and> claim_path pa \<and> (pb = Start \<or> told_taken pb))
         \<or> (taken_by self = Some (u_id (i_user ib)) \<and> claim_path pb \<and> (pa = Start \<or> told_taken pa))))"

definition open_view :: TicketInitialView where
  "open_view =
     \<lparr>owner = requester, nick_text = ''Steve'', age = ''17'', purpose = ''building'',
      from_where = ''a friend'', read_rules = ''yes'', taken_by = None\<rparr>"

definition held_view :: TicketInitialView where
  "held_view = open_view\<lparr>taken_by := Some 2\<rparr>"

definition claimed_view :: TicketTakenView where
  "claimed_view =
     \<lparr>tv_owner = requester, tv_nick_text = ''Steve'', taker_id = Some 2, tv_age = ''17'',
      tv_purpose = ''building'', tv_from_where = ''a friend'', tv_read_rules = ''yes''\<rparr>"

section \<open>Predicates on intake submissions\<close>

text \<open>
  \<open>padded l m r\<close>: \<open>l\<close> and \<open>r\<close> are whitespace and \<open>m\<close> is empty or neither begins nor
  ends with whitespace.  Every text is \<open>l @ m @ r\<close> for one such \<open>m\<close>, the text without the
  whitespace at its two ends.  \<open>rejected_with m i w r\<close>: the handler has ended in \<open>r\<close>
  having made one call only, the reply \<open>m\<close> to the interaction \<open>i\<close>, which was sent or raised.
\<close>

definition padded :: "string \<Rightarrow> string \<Rightarrow> string \<Rightarrow> bool" where
  "padded l m r =
     (list_all py_isspace l \<and> list_all py_isspace r
      \<and> (m = [] \<or> (\<not> py_isspace (hd m) \<and> \<not> py_isspace (last m))))"

definition rejected_with :: "msg \<Rightarrow> interaction \<Rightarrow> world \<Rightarrow> outcome \<times> world \<Rightarrow> bool" where
  "rejected_with m i w r =
     (r = (Replied m, w\<lparr>trace := trace w @ [(Respond (i_id i) m, True)]\<rparr>)
      \<or> r = (ReplyFailed m, w\<lparr>trace := trace w @ [(Respond (i_id i) m, False)]\<rparr>))"

text \<open>A form with valid values, submitted by the requester.\<close>

definition example_form :: TicketModal where
  "example_form =
     \<lparr>author = requester, nick = ''Steve'', tm_age = ''17'',
      tm_purpose = replicate 50 (CHR ''a''), tm_from_where = ''a friend'',
      tm_read_rules = ''yes''\<rparr>"

definition form_submit :: interaction where
  "form_submit = \<lparr>i_id = 7004, i_user = \<lparr>u_id = 1, u_admin = False, u_roles = {}\<rparr>,
                   i_channel = None\<rparr>"

section \<open>Guilds for the examples of acceptance\<close>

text \<open>
  \<open>gone_guild\<close>: the requester has left the guild and a log channel is set.
  \<open>strict_guild\<close>: the accepted role is set and every change of a nickname raises.
  \<open>deaf_guild\<close>: as \<open>gone_guild\<close>, and every reply to an interaction raises.
\<close>

definition gone_guild :: world where
  "gone_guild =
     guild0\<lparr>settings := (settings guild0)(''log_channel_id'' \<mapsto> JInt 600),
            guild_members := {2, 3}\<rparr>"

definition strict_guild :: world where
  "strict_guild =
     guild0\<lparr>settings := (settings guild0)(''accepted_role_id'' \<mapsto> JInt 20),
            raises := (\<lambda>c. case c of MemberEdit m n \<Rightarrow> True | _ \<Rightarrow> False)\<rparr>"

definition deaf_guild :: world where
  "deaf_guild = gone_guild\<lparr>raises := (\<lambda>c. case c of Respond a m \<Rightarrow> True | _ \<Rightarrow> False)\<rparr>"

section \<open>Integer parsing\<close>


lemma py_int_minus_five: "py_int ''-5'' = Some (- 5)"
  by (simp add: py_int_def strip_with_def int_isspace_def is_decimal_def digits_value_def
        digit_val_def)


lemma digit_char_props:
  assumes "d < 10"
  shows "is_decimal (digit_char d)" "digit_val (digit_char d) = d"
proof -
  from assms have "d \<in> {0,1,2,3,4,5,6,7,8,9}" by auto
  then show "is_decimal (digit_char d)" "digit_val (digit_char d) = d"
    by (auto simp: digit_char_def is_decimal_def digit_val_def)
qed

lemma nat_digits_decimal: "nat_digits n \<noteq> [] \<and> list_all is_decimal (nat_digits n)"
proof (induction n rule: nat_digits.induct)
  case (1 n)
  show ?case
  proof (cases "n < 10")
    case True
    then show ?thesis by (subst (1 2) nat_digits.simps) (simp add: digit_char_props)
  next
    case False
    with 1 show ?thesis
      by (subst (1 2) nat_digits.simps) (simp add: digit_char_props)
  qed
qed

lemma digits_value_snoc: "digits_value (ds @ [c]) = 10 * digits_value ds + digit_val c"
  by (simp add: digits_value_def)

lemma digits_value_nat_digits: "digits_value (nat_digits n) = n"
proof (induction n rule: nat_digits.induct)
  case (1 n)
  show ?case
  proof (cases "n < 10")
    case True
    then show ?thesis
      by (subst nat_digits.simps) (simp add: digits_value_def digit_char_props)
  next
    case False
    with 1 show ?thesis
      by (subst nat_digits.simps) (simp add: digits_value_snoc digit_char_props)
  qed
qed










text \<open>The decimal text of two numerals.\<close>

lemma nat_digits_numeral:
  "nat_digits (numeral k) =
     (if (numeral k :: nat) < 10 then [digit_char (numeral k)]
      else nat_digits (numeral k div 10) @ [digit_char (numeral k mod 10)])"
  by (rule nat_digits.simps)

lemma nat_digits_one: "nat_digits (Suc 0) = ''1''"
  by (subst nat_digits.simps) (simp add: digit_char_def)


lemma py_str_example: "py_str 123456789012345678 = ''123456789012345678''"
  by (simp add: py_str_def nat_digits_numeral nat_digits_one digit_char_def)

section \<open>Calls and replies\<close>

lemma call_raises_simps [simp]:
  "call_raises w (Respond a m) = raises w (Respond a m)"
  "call_raises w (SendModal a md) = raises w (SendModal a md)"
  "call_raises w (EditMessage a c v) = raises w (EditMessage a c v)"
  "call_raises w (CreateTextChannel nm ovs cat tp) = raises w (CreateTextChannel nm ovs cat tp)"
  "call_raises w (MemberEdit mid n) = raises w (MemberEdit mid n)"
  "call_raises w (AddRoles mid rid) = raises w (AddRoles mid rid)"
  "call_raises w (MemberSend mid d) = raises w (MemberSend mid d)"
  "call_raises w (FetchMember mid) = raises w (FetchMember mid)"
  "call_raises w SaveSettings = raises w SaveSettings"
  by (simp_all add: call_raises_def)

lemma respond_eq:
  "respond i m w =
     (if raises w (Respond (i_id i) m) then ReplyFailed m else Replied m,
      w\<lparr>trace := trace w @ [(Respond (i_id i) m, \<not> raises w (Respond (i_id i) m))]\<rparr>)"
  by (simp add: respond_def perform_def)

lemma send_modal_eq:
  "send_modal i md w =
     (if raises w (SendModal (i_id i) md) then ModalFailed md else ModalSent md,
      w\<lparr>trace := trace w @ [(SendModal (i_id i) md, \<not> raises w (SendModal (i_id i) md))]\<rparr>)"
  by (simp add: send_modal_def perform_def)

section \<open>The settings editor: identity keys\<close>



text \<open>
  Claim C4, as the specification states it, fails: the editor stores whatever integer
  \<open>int()\<close> reads, and the text \<open>-5\<close> under \<open>staff_role_id\<close> leaves a setting that is
  neither null nor positive.
\<close>

theorem nonpositive_id_counterexample:
  "\<not> spec_null_or_positive
       (settings_get (settings (snd (GenericValueModal_on_submit ''staff_role_id'' ''-5''
                                      admin_press guild0))) ''staff_role_id'')"
  by (simp add: GenericValueModal_on_submit_def endswith_def str_to_int_maybe_def
        py_int_minus_five save_settings_def perform_def respond_eq guild0_def settings_get_def)

text \<open>
  Claim C4, amended.  After an update, a setting whose key ends in \<open>_id\<close> either has
  the value it had, or is the edited key and holds the integer read from the submitted
  text (of any sign); so a setting that was null or an integer is null or an integer
  afterwards, and the editor never stores anything but an integer under such a key.
\<close>

theorem id_fields_stay_integral:
  assumes "endswith k ''_id''"
  shows "(settings_get (settings (snd (GenericValueModal_on_submit key v i w))) k
            = settings_get (settings w) k
          \<or> (k = key \<and> (\<exists>n. str_to_int_maybe v = Some n
                \<and> settings (snd (GenericValueModal_on_submit key v i w)) k = Some (JInt n))))
       \<and> (null_or_int (settings_get (settings w) k)
            \<longrightarrow> null_or_int (settings_get (settings (snd (GenericValueModal_on_submit key v i w))) k))"
  using assms
  by (auto simp: GenericValueModal_on_submit_def save_settings_def perform_def respond_eq
        settings_get_def split: option.splits prod.splits)

theorem id_fields_stay_integral_witness:
  "endswith ''staff_role_id'' ''_id''
   \<and> null_or_int (settings_get (settings guild0) ''staff_role_id'')
   \<and> settings (snd (GenericValueModal_on_submit ''staff_role_id'' ''-5'' admin_press guild0))
        ''staff_role_id'' = Some (JInt (- 5))
   \<and> null_or_int (settings_get (settings (snd (GenericValueModal_on_submit ''staff_role_id''
        ''-5'' admin_press guild0))) ''staff_role_id'')"
  using id_fields_stay_integral [of "''staff_role_id''" "''staff_role_id''" "''-5''" admin_press guild0]
  by (simp add: GenericValueModal_on_submit_def endswith_def str_to_int_maybe_def
        py_int_minus_five save_settings_def perform_def respond_eq guild0_def settings_get_def)

section \<open>A claimed ticket: who may act\<close>

text \<open>
  Claim C3.  An actor who is neither the recorded claimant nor an administrator gets,
  from each of the four buttons of a claimed ticket, the refusal message of that button
  and nothing else: the world after the handler is the world before it with that one
  reply added to the calls made, so the channel, its permissions and view, the roles,
  the nicknames, the direct messages and the log are as they were.
\<close>

theorem only_taker_or_admin:
  assumes "taker_id self \<noteq> Some (u_id (i_user i))" and "\<not> u_admin (i_user i)"
  shows "accept_final self i w = respond i MsgOnlyTakerMayDoThis w
       \<and> reject_ticket self i w = respond i MsgOnlyTakerMayReject w
       \<and> delete_ticket self i w = respond i MsgOnlyTakerMayDelete w
       \<and> add_moderator self i w = respond i MsgOnlyTakerMayDoThis w
       \<and> (\<forall>m. snd (respond i m w)
              = w\<lparr>trace := trace w @ [(Respond (i_id i) m, \<not> raises w (Respond (i_id i) m))]\<rparr>
            \<and> fst (respond i m w) = (if raises w (Respond (i_id i) m) then ReplyFailed m else Replied m))"
  using assms
  by (auto simp: accept_final_def reject_ticket_def delete_ticket_def add_moderator_def
        is_taker_or_admin_def respond_eq)

theorem only_taker_or_admin_witness:
  "taker_id claimed_view \<noteq> Some (u_id (i_user outsider_press))
   \<and> \<not> u_admin (i_user outsider_press)
   \<and> accept_final claimed_view outsider_press guild0
       = (Replied MsgOnlyTakerMayDoThis, guild0\<lparr>trace := [(Respond 7003 MsgOnlyTakerMayDoThis, True)]\<rparr>)
   \<and> delete_ticket claimed_view outsider_press guild0
       = (Replied MsgOnlyTakerMayDelete, guild0\<lparr>trace := [(Respond 7003 MsgOnlyTakerMayDelete, True)]\<rparr>)"
  using only_taker_or_admin [of claimed_view outsider_press guild0]
  by (simp add: claimed_view_def outsider_press_def guild0_def respond_eq)

section \<open>Claiming: the handler run alone\<close>

lemma perform_Respond:
  "perform (Respond a m) w = (\<not> raises w (Respond a m), w\<lparr>trace := trace w @ [(Respond a m, \<not> raises w (Respond a m))]\<rparr>)"
  by (simp add: perform_def)

lemma take_run_Start:
  "take_run i (self, w, Start) = (let (self', pc) = take_start i self w in take_run i (self', w, pc))"
  by (simp add: Let_def split: prod.splits)

lemma take_run_Await:
  "take_run i (self, w, Await c at) =
     (let (ok, w') = perform c w in take_run i (self, w', take_resume i self w' at ok))"
  by (simp add: Let_def split: prod.splits)

lemma take_run_Done: "take_run i (self, w, Done out) = (out, self, w)"
  by simp

declare take_run.simps [simp del]

lemma take_run_reply:
  "take_run i (self, w, Await (Respond (i_id i) m) (AtReply m)) =
     (if raises w (Respond (i_id i) m) then ReplyFailed m else Replied m, self,
      w\<lparr>trace := trace w @ [(Respond (i_id i) m, \<not> raises w (Respond (i_id i) m))]\<rparr>)"
  by (simp add: take_run_Await take_run_Done perform_Respond take_resume_def)

lemma take_button_not_configured:
  assumes "settings_get (settings w) ''staff_role_id'' = JNull"
  shows "take_button self i w =
     (if raises w (Respond (i_id i) MsgStaffRoleNotConfigured)
      then ReplyFailed MsgStaffRoleNotConfigured else Replied MsgStaffRoleNotConfigured, self,
      w\<lparr>trace := trace w @ [(Respond (i_id i) MsgStaffRoleNotConfigured,
                               \<not> raises w (Respond (i_id i) MsgStaffRoleNotConfigured))]\<rparr>)"
  using assms by (simp add: take_button_def take_run_Start take_start_def take_run_reply)

lemma take_button_raises:
  assumes "settings_get (settings w) ''staff_role_id'' \<noteq> JNull"
    and "int_of_jvalue (settings_get (settings w) ''staff_role_id'') = Inl e"
  shows "take_button self i w = (Raised e, self, w)"
  using assms by (simp add: take_button_def take_run_Start take_run_Done take_start_def)

lemma take_button_no_right:
  assumes "int_of_jvalue (settings_get (settings w) ''staff_role_id'') = Inr rid"
    and "\<not> may_take w i"
  shows "take_button self i w =
     (if raises w (Respond (i_id i) MsgNoRightToTake)
      then ReplyFailed MsgNoRightToTake else Replied MsgNoRightToTake, self,
      w\<lparr>trace := trace w @ [(Respond (i_id i) MsgNoRightToTake,
                               \<not> raises w (Respond (i_id i) MsgNoRightToTake))]\<rparr>)"
proof -
  from assms(1) have "settings_get (settings w) ''staff_role_id'' \<noteq> JNull" by auto
  with assms show ?thesis
    by (auto simp add: take_button_def take_run_Start take_start_def take_run_reply may_take_def get_role_def)
qed

lemma take_button_already_taken:
  assumes "may_take w i" and "taken_by self \<noteq> None"
  shows "take_button self i w =
     (if raises w (Respond (i_id i) MsgAlreadyTaken)
      then ReplyFailed MsgAlreadyTaken else Replied MsgAlreadyTaken, self,
      w\<lparr>trace := trace w @ [(Respond (i_id i) MsgAlreadyTaken,
                               \<not> raises w (Respond (i_id i) MsgAlreadyTaken))]\<rparr>)"
proof -
  from assms(1) obtain rid where r: "int_of_jvalue (settings_get (settings w) ''staff_role_id'') = Inr rid"
    by (auto simp: may_take_def split: sum.splits)
  then have "settings_get (settings w) ''staff_role_id'' \<noteq> JNull" by auto
  with assms r show ?thesis
    by (auto simp add: take_button_def take_run_Start take_start_def take_run_reply may_take_def get_role_def)
qed

section \<open>Claiming: two handlers on one view\<close>

lemma effect_keeps:
  "settings (effect c w) = settings w" "guild_roles (effect c w) = guild_roles w"
  "guild_members (effect c w) = guild_members w" "raises (effect c w) = raises w"
  by (cases c; simp add: update_channel_def split: option.splits)+

lemma perform_keeps:
  "settings (snd (perform c w)) = settings w" "guild_roles (snd (perform c w)) = guild_roles w"
  "guild_members (snd (perform c w)) = guild_members w" "raises (snd (perform c w)) = raises w"
  by (simp_all add: perform_def effect_keeps)

lemma may_take_cong:
  "settings w' = settings w \<Longrightarrow> guild_roles w' = guild_roles w \<Longrightarrow> may_take w' i = may_take w i"
  by (simp add: may_take_def split: sum.splits)

lemma take_start_claims:
  assumes "may_take w i" and "taken_by self = None"
  shows "fst (take_start i self w) = self\<lparr>taken_by := Some (u_id (i_user i))\<rparr>"
    and "claim_path (snd (take_start i self w))"
proof -
  from assms(1) obtain rid where r: "int_of_jvalue (settings_get (settings w) ''staff_role_id'') = Inr rid"
    by (auto simp: may_take_def split: sum.splits)
  then have n: "settings_get (settings w) ''staff_role_id'' \<noteq> JNull" by auto
  from assms r n show "fst (take_start i self w) = self\<lparr>taken_by := Some (u_id (i_user i))\<rparr>"
    by (auto simp: take_start_def Let_def may_take_def get_role_def)
  from assms r n show "claim_path (snd (take_start i self w))"
    by (auto simp: take_start_def Let_def may_take_def get_role_def await_edit_def
          await_perm_user_def split: option.splits)
qed

lemma take_start_taken:
  assumes "may_take w i" and "taken_by self \<noteq> None"
  shows "take_start i self w =
           (self, Await (Respond (i_id i) MsgAlreadyTaken) (AtReply MsgAlreadyTaken))"
proof -
  from assms(1) obtain rid where r: "int_of_jvalue (settings_get (settings w) ''staff_role_id'') = Inr rid"
    by (auto simp: may_take_def split: sum.splits)
  then have "settings_get (settings w) ''staff_role_id'' \<noteq> JNull" by auto
  with assms r show ?thesis
    by (auto simp: take_start_def may_take_def get_role_def)
qed

lemma take_resume_claim_path:
  "claim_path (Await c at) \<Longrightarrow> claim_path (take_resume i self w at ok)"
  by (cases at)
     (auto simp: take_resume_def await_edit_def await_perm_user_def split: option.splits)

lemma take_resume_told_taken:
  "told_taken (Await c at) \<Longrightarrow> told_taken (take_resume i self w at ok)"
  by (cases at) (auto simp: take_resume_def)

lemma take_step_claim_path:
  assumes "claim_path pc"
  shows "\<exists>w' pc'. take_step i (self, w, pc) = (self, w', pc') \<and> claim_path pc'
           \<and> settings w' = settings w \<and> guild_roles w' = guild_roles w"
proof (cases pc)
  case (Await c at)
  with assms show ?thesis
    using perform_keeps(1,2)[of c w] take_resume_claim_path[of c at]
    by (cases "perform c w") auto
qed (use assms in auto)

lemma take_step_told_taken:
  assumes "told_taken pc"
  shows "\<exists>w' pc'. take_step i (self, w, pc) = (self, w', pc') \<and> told_taken pc'
           \<and> settings w' = settings w \<and> guild_roles w' = guild_roles w"
proof (cases pc)
  case (Await c at)
  with assms show ?thesis
    using perform_keeps(1,2)[of c w] take_resume_told_taken[of c at]
    by (cases "perform c w") auto
qed (use assms in auto)

lemma take_step_Start:
  "take_step i (self, w, Start) = (fst (take_start i self w), w, snd (take_start i self w))"
  by (simp add: split_beta)

lemma race_inv_winner_moves:
  assumes "may_take w i" and "may_take w j" and "claim_path p"
    and "take_step i (self, w, p) = (self', w', p')"
  shows "self' = self \<and> claim_path p' \<and> may_take w' i \<and> may_take w' j"
proof -
  from take_step_claim_path[OF assms(3), of i self w] assms(4)
  have k: "self' = self" "claim_path p'" "settings w' = settings w" "guild_roles w' = guild_roles w"
    by auto
  from may_take_cong[OF k(3,4)] assms(1,2) k(1,2) show ?thesis by simp
qed

lemma race_inv_loser_moves:
  assumes "may_take w i" and "may_take w j" and "told_taken p"
    and "take_step i (self, w, p) = (self', w', p')"
  shows "self' = self \<and> told_taken p' \<and> may_take w' i \<and> may_take w' j"
proof -
  from take_step_told_taken[OF assms(3), of i self w] assms(4)
  have k: "self' = self" "told_taken p'" "settings w' = settings w" "guild_roles w' = guild_roles w"
    by auto
  from may_take_cong[OF k(3,4)] assms(1,2) k(1,2) show ?thesis by simp
qed

lemma race_inv_first_start:
  assumes "may_take w i" and "taken_by self = None"
    and "take_step i (self, w, Start) = (self', w', p')"
  shows "taken_by self' = Some (u_id (i_user i)) \<and> claim_path p' \<and> w' = w"
proof -
  from assms(3) have "self' = fst (take_start i self w)" "w' = w" "p' = snd (take_start i self w)"
    by (auto simp add: take_step_Start simp del: take_step.simps)
  with take_start_claims[OF assms(1,2)] show ?thesis by simp
qed

lemma race_inv_late_start:
  assumes "may_take w i" and "taken_by self = Some x"
    and "take_step i (self, w, Start) = (self', w', p')"
  shows "self' = self \<and> told_taken p' \<and> w' = w"
proof -
  from assms(2) have "taken_by self \<noteq> None" by simp
  from take_start_taken[OF assms(1) this] assms(3) show ?thesis
    by (auto simp: take_step_Start simp del: take_step.simps)
qed

lemma race_inv_step_a:
  assumes "race_inv ia ib (self, w, pa, pb)" and "take_step ia (self, w, pa) = (self', w', pa')"
  shows "race_inv ia ib (self', w', pa', pb)"
proof -
  from assms(1) have ma: "may_take w ia" and mb: "may_take w ib" by (simp_all add: race_inv_def)
  from assms(1) consider
      (fresh) "taken_by self = None" "pa = Start" "pb = Start"
    | (awon) "taken_by self = Some (u_id (i_user ia))" "claim_path pa" "pb = Start \<or> told_taken pb"
    | (bwon_start) "taken_by self = Some (u_id (i_user ib))" "claim_path pb" "pa = Start"
    | (bwon_told) "taken_by self = Some (u_id (i_user ib))" "claim_path pb" "told_taken pa"
    unfolding race_inv_def by fastforce
  then show ?thesis
  proof cases
    case fresh
    from race_inv_first_start[OF ma fresh(1) assms(2)[unfolded fresh(2)]] ma mb fresh(3)
    show ?thesis unfolding race_inv_def by auto
  next
    case awon
    from race_inv_winner_moves[OF ma mb awon(2) assms(2)] awon(1,3)
    show ?thesis unfolding race_inv_def by auto
  next
    case bwon_start
    from race_inv_late_start[OF ma bwon_start(1) assms(2)[unfolded bwon_start(3)]] ma mb bwon_start(1,2)
    show ?thesis unfolding race_inv_def by auto
  next
    case bwon_told
    from race_inv_loser_moves[OF ma mb bwon_told(3) assms(2)] bwon_told(1,2)
    show ?thesis unfolding race_inv_def by auto
  qed
qed

lemma race_inv_step_b:
  assumes "race_inv ia ib (self, w, pa, pb)" and "take_step ib (self, w, pb) = (self', w', pb')"
  shows "race_inv ia ib (self', w', pa, pb')"
proof -
  from assms(1) have ma: "may_take w ia" and mb: "may_take w ib" by (simp_all add: race_inv_def)
  from assms(1) consider
      (fresh) "taken_by self = None" "pa = Start" "pb = Start"
    | (bwon) "taken_by self = Some (u_id (i_user ib))" "claim_path pb" "pa = Start \<or> told_taken pa"
    | (awon_start) "taken_by self = Some (u_id (i_user ia))" "claim_path pa" "pb = Start"
    | (awon_told) "taken_by self = Some (u_id (i_user ia))" "claim_path pa" "told_taken pb"
    unfolding race_inv_def by fastforce
  then show ?thesis
  proof cases
    case fresh
    from race_inv_first_start[OF mb fresh(1) assms(2)[unfolded fresh(3)]] ma mb fresh(2)
    show ?thesis unfolding race_inv_def by auto
  next
    case bwon
    from race_inv_winner_moves[OF mb ma bwon(2) assms(2)] bwon(1,3)
    show ?thesis unfolding race_inv_def by auto
  next
    case awon_start
    from race_inv_late_start[OF mb awon_start(1) assms(2)[unfolded awon_start(3)]] ma mb awon_start(1,2)
    show ?thesis unfolding race_inv_def by auto
  next
    case awon_told
    from race_inv_loser_moves[OF mb ma awon_told(3) assms(2)] awon_told(1,2)
    show ?thesis unfolding race_inv_def by auto
  qed
qed

lemma race_inv_interleave:
  "race_inv ia ib st \<Longrightarrow> race_inv ia ib (interleave ia ib sched st)"
proof (induction sched arbitrary: st)
  case Nil
  then show ?case by simp
next
  case (Cons first sched)
  obtain self w pa pb where st: "st = (self, w, pa, pb)" by (cases st) auto
  show ?case
  proof (cases first)
    case True
    obtain self' w' pa' where s: "take_step ia (self, w, pa) = (self', w', pa')"
      by (cases "take_step ia (self, w, pa)") auto
    from race_inv_step_a[OF Cons.prems[unfolded st] s] have "race_inv ia ib (self', w', pa', pb)" .
    from Cons.IH[OF this] show ?thesis using True s st by simp
  next
    case False
    obtain self' w' pb' where s: "take_step ib (self, w, pb) = (self', w', pb')"
      by (cases "take_step ib (self, w, pb)") auto
    from race_inv_step_b[OF Cons.prems[unfolded st] s] have "race_inv ia ib (self', w', pa, pb')" .
    from Cons.IH[OF this] show ?thesis using False s st by simp
  qed
qed

lemma exactly_one_claims:
  assumes "taken_by self = None" and "may_take w ia" and "may_take w ib"
    and "interleave ia ib sched (self, w, Start, Start) = (self', w', Done oa, Done ob)"
  shows "(oa \<in> {ViewEdited, ViewEditFailed} \<and> ob \<in> {Replied MsgAlreadyTaken, ReplyFailed MsgAlreadyTaken}
            \<and> taken_by self' = Some (u_id (i_user ia)))
       \<or> (ob \<in> {ViewEdited, ViewEditFailed} \<and> oa \<in> {Replied MsgAlreadyTaken, ReplyFailed MsgAlreadyTaken}
            \<and> taken_by self' = Some (u_id (i_user ib)))"
proof -
  from assms(1-3) have "race_inv ia ib (self, w, Start, Start)" by (simp add: race_inv_def)
  from race_inv_interleave[OF this, of sched] assms(4)
  have "race_inv ia ib (self', w', Done oa, Done ob)" by simp
  then show ?thesis by (auto simp: race_inv_def)
qed

lemma take_run_claim_path:
  "claim_path (snd (snd st)) \<Longrightarrow>
     fst (take_run i st) \<in> {ViewEdited, ViewEditFailed} \<and> fst (snd (take_run i st)) = fst st"
proof (induction i st rule: take_run.induct)
  case (1 i self w out)
  then show ?case by (auto simp: take_run_Done)
next
  case (2 i self w)
  then show ?case by simp
next
  case (3 i self w c at)
  from take_step_claim_path[of "Await c at" i self w] "3.prems"
  obtain w' pc' where s: "take_step i (self, w, Await c at) = (self, w', pc')" and c: "claim_path pc'"
    by auto
  from "3.IH" c s have "fst (take_run i (self, w', pc')) \<in> {ViewEdited, ViewEditFailed}
      \<and> fst (snd (take_run i (self, w', pc'))) = self" by simp
  moreover have "take_run i (self, w, Await c at) = take_run i (self, w', pc')"
    using s by (simp add: take_run.simps)
  ultimately show ?case by simp
qed

lemma take_button_claims:
  assumes "may_take w i" and "taken_by self = None"
  shows "fst (take_button self i w) \<in> {ViewEdited, ViewEditFailed}"
    and "fst (snd (take_button self i w)) = self\<lparr>taken_by := Some (u_id (i_user i))\<rparr>"
proof -
  let ?ts = "take_start i self w"
  have r: "take_button self i w = take_run i (fst ?ts, w, snd ?ts)"
    by (simp add: take_button_def take_run_Start split_beta)
  from take_start_claims[OF assms] take_run_claim_path[of "(fst ?ts, w, snd ?ts)" i]
  show "fst (take_button self i w) \<in> {ViewEdited, ViewEditFailed}"
    and "fst (snd (take_button self i w)) = self\<lparr>taken_by := Some (u_id (i_user i))\<rparr>"
    by (simp_all add: r)
qed

lemma take_rank_Done: "take_rank pc = 0 \<longleftrightarrow> (\<exists>out. pc = Done out)"
  by (cases pc rule: take_rank.cases) auto

lemma take_start_rank: "take_rank (snd (take_start i self w)) \<le> 4"
  by (auto simp: take_start_def Let_def await_edit_def await_perm_user_def
        split: sum.splits option.splits)

lemma take_resume_rank: "take_rank (take_resume i self w at ok) \<le> take_rank (Await c at) - 1"
  by (cases at)
     (auto simp: take_resume_def await_edit_def await_perm_user_def split: option.splits)

lemma take_step_rank: "take_rank (snd (snd (take_step i (self, w, pc)))) \<le> take_rank pc - 1"
proof (cases pc)
  case Start
  then show ?thesis using take_start_rank[of i self w] by (simp add: split_beta)
next
  case (Await c at)
  then show ?thesis using take_resume_rank[of i self _ at _ c] by (simp add: split_beta)
next
  case (Done out)
  then show ?thesis by simp
qed

lemma interleave_finishes:
  "take_rank pa \<le> length (filter (\<lambda>b. b) sched) \<Longrightarrow> take_rank pb \<le> length (filter Not sched) \<Longrightarrow>
     \<exists>oa ob. snd (snd (interleave ia ib sched (self, w, pa, pb))) = (Done oa, Done ob)"
proof (induction sched arbitrary: self w pa pb)
  case Nil
  then show ?case by (simp add: take_rank_Done)
next
  case (Cons first sched)
  show ?case
  proof (cases first)
    case True
    obtain self' w' pa' where s: "take_step ia (self, w, pa) = (self', w', pa')"
      by (cases "take_step ia (self, w, pa)") auto
    with take_step_rank[of ia self w pa] have "take_rank pa' \<le> take_rank pa - 1" by simp
    with Cons.prems True have "take_rank pa' \<le> length (filter (\<lambda>b. b) sched)"
      "take_rank pb \<le> length (filter Not sched)" by auto
    from Cons.IH[OF this] show ?thesis using True s by simp
  next
    case False
    obtain self' w' pb' where s: "take_step ib (self, w, pb) = (self', w', pb')"
      by (cases "take_step ib (self, w, pb)") auto
    with take_step_rank[of ib self w pb] have "take_rank pb' \<le> take_rank pb - 1" by simp
    with Cons.prems False have "take_rank pa \<le> length (filter (\<lambda>b. b) sched)"
      "take_rank pb' \<le> length (filter Not sched)" by auto
    from Cons.IH[OF this] show ?thesis using False s by simp
  qed
qed

lemma may_take_staff: "may_take guild0 staff_press"
  by (simp add: may_take_def guild0_def staff_press_def settings_get_def)

lemma may_take_admin: "may_take guild0 admin_press"
  by (simp add: may_take_def guild0_def admin_press_def settings_get_def)

lemma not_may_take_outsider: "\<not> may_take guild0 outsider_press"
  by (simp add: may_take_def guild0_def outsider_press_def settings_get_def)

lemma staff_role_guild0: "int_of_jvalue (settings_get (settings guild0) ''staff_role_id'') = Inr 10"
  by (simp add: guild0_def settings_get_def)

lemma take_button_keeps_claimed:
  assumes "taken_by self \<noteq> None"
  shows "fst (snd (take_button self i w)) = self
       \<and> (snd (snd (take_button self i w)) = w
          \<or> (\<exists>m ok. snd (snd (take_button self i w))
                      = w\<lparr>trace := trace w @ [(Respond (i_id i) m, ok)]\<rparr>))"
proof (cases "settings_get (settings w) ''staff_role_id'' = JNull")
  case True
  from take_button_not_configured[OF True, of self i] show ?thesis by auto
next
  case False
  show ?thesis
  proof (cases "int_of_jvalue (settings_get (settings w) ''staff_role_id'')")
    case (Inl e)
    from take_button_raises[OF False Inl, of self i] show ?thesis by simp
  next
    case (Inr rid)
    show ?thesis
    proof (cases "may_take w i")
      case True
      from take_button_already_taken[OF True assms] show ?thesis by auto
    next
      case False
      from take_button_no_right[OF Inr False, of self] show ?thesis by auto
    qed
  qed
qed

lemmas run_defs = take_start_def take_resume_def perform_def call_raises_def get_role_def
  get_member_def await_edit_def await_perm_user_def new_view_def update_channel_def Let_def
  settings_get_def

lemmas example_defs = open_view_def held_view_def guild0_def staff_press_def admin_press_def
  outsider_press_def requester_def

lemmas seq_defs = take_button_def take_run_Start take_run_Await take_run_Done

section \<open>Claiming: who may claim\<close>

text \<open>
  Claim C7.  A press of the button on an open ticket (no claimant): when no staff role
  is configured, the actor gets the configuration message, and the view and the world
  are as before but for that reply; when the staff role is configured as \<open>rid\<close>, an actor
  who holds that role (it exists in the guild and is among the actor's roles) or is an
  administrator is recorded as claimant and the handler ends with the edit of the
  message, and any other actor gets the no-right message with the view and the world
  as before but for that reply.  Whatever the settings, a claimant is recorded only
  for an actor who passes that check.
\<close>

theorem claim_requires_staff_or_admin:
  assumes "taken_by self = None"
  shows "(settings_get (settings w) ''staff_role_id'' = JNull \<longrightarrow>
            take_button self i w =
              (if raises w (Respond (i_id i) MsgStaffRoleNotConfigured)
               then ReplyFailed MsgStaffRoleNotConfigured else Replied MsgStaffRoleNotConfigured,
               self,
               w\<lparr>trace := trace w @ [(Respond (i_id i) MsgStaffRoleNotConfigured,
                                        \<not> raises w (Respond (i_id i) MsgStaffRoleNotConfigured))]\<rparr>))
       \<and> (\<forall>rid. int_of_jvalue (settings_get (settings w) ''staff_role_id'') = Inr rid \<longrightarrow>
            (if (rid \<in> guild_roles w \<and> rid \<in> u_roles (i_user i)) \<or> u_admin (i_user i)
             then fst (take_button self i w) \<in> {ViewEdited, ViewEditFailed}
                  \<and> fst (snd (take_button self i w)) = self\<lparr>taken_by := Some (u_id (i_user i))\<rparr>
             else take_button self i w =
                    (if raises w (Respond (i_id i) MsgNoRightToTake)
                     then ReplyFailed MsgNoRightToTake else Replied MsgNoRightToTake,
                     self,
                     w\<lparr>trace := trace w @ [(Respond (i_id i) MsgNoRightToTake,
                                              \<not> raises w (Respond (i_id i) MsgNoRightToTake))]\<rparr>)))
       \<and> (taken_by (fst (snd (take_button self i w))) \<noteq> None \<longrightarrow> may_take w i)"
proof (intro conjI impI allI)
  assume "settings_get (settings w) ''staff_role_id'' = JNull"
  from take_button_not_configured[OF this] show "take_button self i w =
              (if raises w (Respond (i_id i) MsgStaffRoleNotConfigured)
               then ReplyFailed MsgStaffRoleNotConfigured else Replied MsgStaffRoleNotConfigured,
               self,
               w\<lparr>trace := trace w @ [(Respond (i_id i) MsgStaffRoleNotConfigured,
                                        \<not> raises w (Respond (i_id i) MsgStaffRoleNotConfigured))]\<rparr>)" .
next
  fix rid
  assume r: "int_of_jvalue (settings_get (settings w) ''staff_role_id'') = Inr rid"
  then have m: "may_take w i \<longleftrightarrow> (rid \<in> guild_roles w \<and> rid \<in> u_roles (i_user i)) \<or> u_admin (i_user i)"
    by (simp add: may_take_def)
  show "if (rid \<in> guild_roles w \<and> rid \<in> u_roles (i_user i)) \<or> u_admin (i_user i)
        then fst (take_button self i w) \<in> {ViewEdited, ViewEditFailed}
             \<and> fst (snd (take_button self i w)) = self\<lparr>taken_by := Some (u_id (i_user i))\<rparr>
        else take_button self i w =
               (if raises w (Respond (i_id i) MsgNoRightToTake)
                then ReplyFailed MsgNoRightToTake else Replied MsgNoRightToTake,
                self,
                w\<lparr>trace := trace w @ [(Respond (i_id i) MsgNoRightToTake,
                                         \<not> raises w (Respond (i_id i) MsgNoRightToTake))]\<rparr>)"
  proof (cases "may_take w i")
    case True
    from take_button_claims[OF True assms] True m show ?thesis by simp
  next
    case False
    from take_button_no_right[OF r False, of self] False m show ?thesis by simp
  qed
next
  assume t: "taken_by (fst (snd (take_button self i w))) \<noteq> None"
  show "may_take w i"
  proof (rule ccontr)
    assume n: "\<not> may_take w i"
    have "fst (snd (take_button self i w)) = self"
    proof (cases "settings_get (settings w) ''staff_role_id'' = JNull")
      case True
      from take_button_not_configured[OF True, of self i] show ?thesis by simp
    next
      case False
      show ?thesis
      proof (cases "int_of_jvalue (settings_get (settings w) ''staff_role_id'')")
        case (Inl e)
        from take_button_raises[OF False Inl, of self i] show ?thesis by simp
      next
        case (Inr rid)
        from take_button_no_right[OF Inr n, of self] show ?thesis by simp
      qed
    qed
    with t assms show False by simp
  qed
qed

theorem claim_requires_staff_or_admin_witness:
  "taken_by open_view = None
   \<and> int_of_jvalue (settings_get (settings guild0) ''staff_role_id'') = Inr 10
   \<and> take_button open_view outsider_press guild0
       = (Replied MsgNoRightToTake, open_view,
          guild0\<lparr>trace := [(Respond 7003 MsgNoRightToTake, True)]\<rparr>)
   \<and> fst (take_button open_view staff_press guild0) \<in> {ViewEdited, ViewEditFailed}
   \<and> taken_by (fst (snd (take_button open_view staff_press guild0))) = Some 2
   \<and> settings_get (settings (guild0\<lparr>settings := default_settings\<rparr>)) ''staff_role_id'' = JNull
   \<and> take_button open_view admin_press (guild0\<lparr>settings := default_settings\<rparr>)
       = (Replied MsgStaffRoleNotConfigured, open_view,
          guild0\<lparr>settings := default_settings,
                 trace := [(Respond 7002 MsgStaffRoleNotConfigured, True)]\<rparr>)"
  using claim_requires_staff_or_admin [of open_view guild0 outsider_press]
        claim_requires_staff_or_admin [of open_view guild0 staff_press]
        claim_requires_staff_or_admin [of open_view "guild0\<lparr>settings := default_settings\<rparr>" admin_press]
  by (simp add: example_defs settings_get_def default_settings_def)

section \<open>Claiming: at most once\<close>

text \<open>
  Claim C1, as the specification states it, fails for an actor who does not pass the
  role check: the handler tests the staff role and the actor's rights before it looks
  at the claimant, so an outsider pressing the button of a claimed ticket is told that
  he has no right to take it, not that the ticket is taken.
\<close>

theorem already_claimed_counterexample:
  "taken_by held_view = Some 2
   \<and> fst (take_button held_view outsider_press guild0) = Replied MsgNoRightToTake"
  using take_button_no_right[OF staff_role_guild0 not_may_take_outsider, of held_view]
  by (simp add: held_view_def open_view_def guild0_def)

text \<open>
  Claim C1, amended.  On a ticket whose claimant is set, a further press never changes
  the view (so not the claimant) and does nothing to the world but, at most, send one
  reply (so no channel permission changes); for an actor who passes the role check
  that reply is that the ticket is already taken.  On an open ticket, the first
  resumption of the handler of such an actor both tests and sets the claimant, with no
  call made in between (the world is the same).  And of two presses by actors who pass
  the check, interleaved in any way: when both handlers have finished, exactly one has
  gone on to edit the message, with its actor as claimant, and the other has answered
  that the ticket is already taken; each handler finishes within five resumptions.
\<close>

theorem ticket_claimed_once:
  shows "(taken_by self \<noteq> None \<longrightarrow>
            fst (snd (take_button self i w)) = self
            \<and> (snd (snd (take_button self i w)) = w
               \<or> (\<exists>m ok. snd (snd (take_button self i w))
                            = w\<lparr>trace := trace w @ [(Respond (i_id i) m, ok)]\<rparr>))
            \<and> (may_take w i \<longrightarrow>
                 fst (take_button self i w) \<in> {Replied MsgAlreadyTaken, ReplyFailed MsgAlreadyTaken}))
       \<and> (taken_by self = None \<and> may_take w i \<longrightarrow>
            (\<exists>pc. take_step i (self, w, Start)
                     = (self\<lparr>taken_by := Some (u_id (i_user i))\<rparr>, w, pc) \<and> claim_path pc))
       \<and> (taken_by self = None \<and> may_take w ia \<and> may_take w ib \<longrightarrow>
            (\<forall>sched self' w' oa ob.
               interleave ia ib sched (self, w, Start, Start) = (self', w', Done oa, Done ob) \<longrightarrow>
                 (oa \<in> {ViewEdited, ViewEditFailed}
                  \<and> ob \<in> {Replied MsgAlreadyTaken, ReplyFailed MsgAlreadyTaken}
                  \<and> taken_by self' = Some (u_id (i_user ia)))
               \<or> (ob \<in> {ViewEdited, ViewEditFailed}
                  \<and> oa \<in> {Replied MsgAlreadyTaken, ReplyFailed MsgAlreadyTaken}
                  \<and> taken_by self' = Some (u_id (i_user ib))))
            \<and> (\<forall>sched. 5 \<le> length (filter (\<lambda>b. b) sched) \<and> 5 \<le> length (filter Not sched) \<longrightarrow>
                 (\<exists>oa ob. snd (snd (interleave ia ib sched (self, w, Start, Start)))
                            = (Done oa, Done ob))))"
proof (intro conjI impI allI)
  assume t: "taken_by self \<noteq> None"
  from take_button_keeps_claimed[OF t, of i w]
  show "fst (snd (take_button self i w)) = self"
    and "snd (snd (take_button self i w)) = w
         \<or> (\<exists>m ok. snd (snd (take_button self i w))
                      = w\<lparr>trace := trace w @ [(Respond (i_id i) m, ok)]\<rparr>)"
    by blast+
  assume "may_take w i"
  from take_button_already_taken[OF this t]
  show "fst (take_button self i w) \<in> {Replied MsgAlreadyTaken, ReplyFailed MsgAlreadyTaken}"
    by simp
next
  assume a: "taken_by self = None \<and> may_take w i"
  then have "fst (take_start i self w) = self\<lparr>taken_by := Some (u_id (i_user i))\<rparr>"
    and "claim_path (snd (take_start i self w))"
    using take_start_claims[of w i self] by simp_all
  then show "\<exists>pc. take_step i (self, w, Start)
                     = (self\<lparr>taken_by := Some (u_id (i_user i))\<rparr>, w, pc) \<and> claim_path pc"
    by (simp add: take_step_Start del: take_step.simps)
next
  fix sched self' w' oa ob
  assume a: "taken_by self = None \<and> may_take w ia \<and> may_take w ib"
    and r: "interleave ia ib sched (self, w, Start, Start) = (self', w', Done oa, Done ob)"
  from a have "taken_by self = None" "may_take w ia" "may_take w ib" by simp_all
  from exactly_one_claims[OF this r]
  show "(oa \<in> {ViewEdited, ViewEditFailed}
          \<and> ob \<in> {Replied MsgAlreadyTaken, ReplyFailed MsgAlreadyTaken}
          \<and> taken_by self' = Some (u_id (i_user ia)))
        \<or> (ob \<in> {ViewEdited, ViewEditFailed}
          \<and> oa \<in> {Replied MsgAlreadyTaken, ReplyFailed MsgAlreadyTaken}
          \<and> taken_by self' = Some (u_id (i_user ib)))" .
next
  fix sched
  assume "5 \<le> length (filter (\<lambda>b. b) sched) \<and> 5 \<le> length (filter Not sched)"
  then have "take_rank Start \<le> length (filter (\<lambda>b. b) sched)"
    "take_rank Start \<le> length (filter Not sched)" by simp_all
  from interleave_finishes[OF this]
  show "\<exists>oa ob. snd (snd (interleave ia ib sched (self, w, Start, Start))) = (Done oa, Done ob)" .
qed

theorem ticket_claimed_once_witness:
  "taken_by held_view \<noteq> None \<and> may_take guild0 staff_press \<and> may_take guild0 admin_press
   \<and> take_button held_view admin_press guild0
       = (Replied MsgAlreadyTaken, held_view, guild0\<lparr>trace := [(Respond 7002 MsgAlreadyTaken, True)]\<rparr>)
   \<and> taken_by open_view = None
   \<and> snd (snd (interleave staff_press admin_press [True, False, True, True, False, True, True, False]
        (open_view, guild0, Start, Start)))
       = (Done ViewEdited, Done (Replied MsgAlreadyTaken))
   \<and> taken_by (fst (interleave staff_press admin_press
        [True, False, True, True, False, True, True, False] (open_view, guild0, Start, Start)))
       = Some 2"
  using ticket_claimed_once [of held_view admin_press guild0 staff_press admin_press]
        ticket_claimed_once [of open_view staff_press guild0 staff_press admin_press]
        may_take_staff may_take_admin
  by (simp add: seq_defs run_defs example_defs)

section \<open>Intake: the checks\<close>

text \<open>
  \<open>strip()\<close> of a padded text is the text between the padding, and every text is a
  padded one.
\<close>

lemma strip_padded:
  assumes "padded l m r"
  shows "strip (l @ m @ r) = m"
proof -
  from assms have l: "\<And>x. x \<in> set l \<Longrightarrow> py_isspace x" and r: "\<And>x. x \<in> set r \<Longrightarrow> py_isspace x"
    by (auto simp: padded_def list_all_iff)
  have d1: "dropWhile py_isspace (l @ m @ r) = dropWhile py_isspace (m @ r)"
    using l by simp
  show ?thesis
  proof (cases "m = []")
    case True
    have "dropWhile py_isspace r = []" using r by (simp add: dropWhile_eq_Nil_conv)
    with True d1 have e: "dropWhile py_isspace (l @ m @ r) = []" by simp
    show ?thesis unfolding strip_def strip_with_def e using True by simp
  next
    case False
    with assms have h: "\<not> py_isspace (hd m)" and t: "\<not> py_isspace (last m)"
      by (auto simp: padded_def)
    from False h have "dropWhile py_isspace (m @ r) = m @ r" by (cases m) auto
    with d1 have d2: "dropWhile py_isspace (l @ m @ r) = m @ r" by simp
    have "dropWhile py_isspace (rev r @ rev m) = dropWhile py_isspace (rev m)"
      using r by (intro dropWhile_append2) simp
    also have "\<dots> = rev m" using False t by (cases "rev m") (auto simp: last_rev[symmetric] simp del: last_rev)
    finally show ?thesis using d2 by (simp add: strip_def strip_with_def)
  qed
qed

lemma padded_strip: "\<exists>l r. s = l @ strip s @ r \<and> padded l (strip s) r"
proof -
  let ?P = py_isspace
  let ?t = "dropWhile ?P s"
  let ?m = "rev (dropWhile ?P (rev ?t))"
  let ?l = "takeWhile ?P s"
  let ?r = "rev (takeWhile ?P (rev ?t))"
  have m: "strip s = ?m" by (simp add: strip_def strip_with_def)
  have "rev (takeWhile ?P (rev ?t) @ dropWhile ?P (rev ?t)) = ?t"
    by (simp only: takeWhile_dropWhile_id rev_rev_ident)
  then have t: "?t = ?m @ ?r" by (simp only: rev_append)
  have s: "s = ?l @ ?m @ ?r" using t takeWhile_dropWhile_id[of ?P s] by metis
  have l: "list_all ?P ?l" by (simp add: list_all_iff) (metis set_takeWhileD)
  have r: "list_all ?P ?r" by (simp add: list_all_iff) (metis set_takeWhileD)
  have e: "?m = [] \<or> (\<not> ?P (hd ?m) \<and> \<not> ?P (last ?m))"
  proof (cases "?m = []")
    case False
    then have d: "dropWhile ?P (rev ?t) \<noteq> []" by simp
    then have "\<not> ?P (hd (dropWhile ?P (rev ?t)))" by (rule hd_dropWhile)
    then have la: "\<not> ?P (last ?m)" using d by (simp add: last_rev)
    from False t have "?t \<noteq> []" by (metis append_is_Nil_conv)
    then have "\<not> ?P (hd ?t)" by (rule hd_dropWhile)
    moreover from False t have "hd ?t = hd ?m" by (metis hd_append2)
    ultimately show ?thesis using la by simp
  qed simp
  from s l r e show ?thesis unfolding m padded_def by blast
qed


lemma respond_rejected: "rejected_with m i w (respond i m w)"
  by (simp add: rejected_with_def respond_eq)

lemma rejected_keeps:
  "rejected_with m i w r \<Longrightarrow> channels (snd r) = channels w \<and> next_id (snd r) = next_id w"
  by (auto simp: rejected_with_def)



lemma intake_purpose:
  assumes "nick self = l1 @ n @ r1" and "padded l1 n r1"
    and "tm_age self = l2 @ g @ r2" and "padded l2 g r2"
    and "tm_purpose self = l3 @ p @ r3" and "padded l3 p r3"
    and "3 \<le> length n" and "length n \<le> 50"
    and "1 \<le> length g" and "length g \<le> 2" and "\<forall>c\<in>set g. py_isdigit_char c"
    and "length p < 50 \<or> 500 < length p"
  shows "TicketModal_on_submit self i w = respond i MsgPurposeLength w"
  using assms
  by (auto simp: TicketModal_on_submit_def strip_padded Let_def isdigit_def list_all_iff)



lemma intake_valid:
  assumes "nick self = l1 @ n @ r1" and "padded l1 n r1"
    and "tm_age self = l2 @ g @ r2" and "padded l2 g r2"
    and "tm_purpose self = l3 @ p @ r3" and "padded l3 p r3"
    and "tm_from_where self = l4 @ f @ r4" and "padded l4 f r4"
    and "tm_read_rules self = l5 @ q @ r5" and "padded l5 q r5"
    and "3 \<le> length n" and "length n \<le> 50"
    and "1 \<le> length g" and "length g \<le> 2" and "\<forall>c\<in>set g. py_isdigit_char c"
    and "50 \<le> length p" and "length p \<le> 500"
    and "1 \<le> length f" and "length f \<le> 50"
    and "1 \<le> length q" and "length q \<le> 20"
    and "null_or_int (settings_get (settings w) ''staff_role_id'')"
    and "null_or_int (settings_get (settings w) ''ticket_category_id'')"
  shows "\<exists>ovs cat. (ovs = [] \<or> (\<exists>r. ovs = [(Role r, allow_all)])) \<and>
      TicketModal_on_submit self i w =
        (let (ok, w1) = perform (CreateTextChannel (take 90 (''ticket-'' @ m_name (author self)))
                                   ([(DefaultRole, hide_channel),
                                     (Member (m_id (author self)), allow_all),
                                     (Member (guild_me w), allow_all)] @ ovs) cat
                                   (''ticket_owner:'' @ py_str (m_id (author self)))) w
         in if \<not> ok then (Raised HTTPException, w1)
            else (let (ok2, w2) = perform (ChannelSend (next_id w)
                                             (TicketPost (author self) n g p f q)) w1
                  in if \<not> ok2 then (Raised HTTPException, w2)
                     else respond i (MsgTicketCreated (next_id w)) w2))"
proof -
  have c: "\<not> (\<not> (3 \<le> length n \<and> length n \<le> 50))"
    "\<not> (\<not> (1 \<le> length g \<and> length g \<le> 2) \<or> \<not> isdigit g)"
    "\<not> (\<not> (50 \<le> length p \<and> length p \<le> 500))"
    "\<not> (\<not> (1 \<le> length f \<and> length f \<le> 50))"
    "\<not> (\<not> (1 \<le> length q \<and> length q \<le> 20))"
    using assms by (auto simp: isdigit_def list_all_iff)
  have s: "strip (nick self) = n" "strip (tm_age self) = g" "strip (tm_purpose self) = p"
    "strip (tm_from_where self) = f" "strip (tm_read_rules self) = q"
    using assms by (simp_all add: strip_padded)
  obtain sv where sv: "settings_get (settings w) ''staff_role_id'' = sv" by simp
  obtain cv where cv: "settings_get (settings w) ''ticket_category_id'' = cv" by simp
  from assms sv cv have n: "null_or_int sv" "null_or_int cv" by simp_all
  show ?thesis
    unfolding TicketModal_on_submit_def s Let_def sv cv
    using n c
    apply (cases sv; cases cv)
    apply (simp_all only: c if_False)
    apply (auto simp: get_role_def split: option.splits)
    done
qed

lemma intake_accepts:
  assumes "nick self = l1 @ n @ r1" and "padded l1 n r1"
    and "tm_age self = l2 @ g @ r2" and "padded l2 g r2"
    and "tm_purpose self = l3 @ p @ r3" and "padded l3 p r3"
    and "tm_from_where self = l4 @ f @ r4" and "padded l4 f r4"
    and "tm_read_rules self = l5 @ q @ r5" and "padded l5 q r5"
    and "3 \<le> length n" and "length n \<le> 50"
    and "1 \<le> length g" and "length g \<le> 2" and "\<forall>c\<in>set g. py_isdigit_char c"
    and "50 \<le> length p" and "length p \<le> 500"
    and "1 \<le> length f" and "length f \<le> 50"
    and "1 \<le> length q" and "length q \<le> 20"
    and "null_or_int (settings_get (settings w) ''staff_role_id'')"
    and "null_or_int (settings_get (settings w) ''ticket_category_id'')"
    and "\<forall>c. \<not> raises w c"
  shows "fst (TicketModal_on_submit self i w) = Replied (MsgTicketCreated (next_id w))"
    and "\<exists>ch. channels (snd (TicketModal_on_submit self i w)) (next_id w) = Some ch
           \<and> ch_name ch = take 90 (''ticket-'' @ m_name (author self))
           \<and> ch_topic ch = ''ticket_owner:'' @ py_str (m_id (author self))
           \<and> ch_posts ch = [TicketPost (author self) n g p f q]
           \<and> ch_view ch = Some InitialShown
           \<and> ch_overwrites ch (Member (m_id (author self))) = Some allow_all"
    and "\<forall>c. c \<noteq> next_id w \<longrightarrow> channels (snd (TicketModal_on_submit self i w)) c = channels w c"
proof -
  from intake_valid[OF assms(1-23), of i] obtain ovs cat where
    o: "ovs = [] \<or> (\<exists>r. ovs = [(Role r, allow_all)])" and
    e: "TicketModal_on_submit self i w =
        (let (ok, w1) = perform (CreateTextChannel (take 90 (''ticket-'' @ m_name (author self)))
                                   ([(DefaultRole, hide_channel),
                                     (Member (m_id (author self)), allow_all),
                                     (Member (guild_me w), allow_all)] @ ovs) cat
                                   (''ticket_owner:'' @ py_str (m_id (author self)))) w
         in if \<not> ok then (Raised HTTPException, w1)
            else (let (ok2, w2) = perform (ChannelSend (next_id w)
                                             (TicketPost (author self) n g p f q)) w1
                  in if \<not> ok2 then (Raised HTTPException, w2)
                     else respond i (MsgTicketCreated (next_id w)) w2))"
    by blast
  from assms(24) have r: "\<And>c. raises w c = False" by simp
  show "fst (TicketModal_on_submit self i w) = Replied (MsgTicketCreated (next_id w))"
    unfolding e by (simp add: perform_def call_raises_def update_channel_def respond_eq r)
  from o show "\<exists>ch. channels (snd (TicketModal_on_submit self i w)) (next_id w) = Some ch
           \<and> ch_name ch = take 90 (''ticket-'' @ m_name (author self))
           \<and> ch_topic ch = ''ticket_owner:'' @ py_str (m_id (author self))
           \<and> ch_posts ch = [TicketPost (author self) n g p f q]
           \<and> ch_view ch = Some InitialShown
           \<and> ch_overwrites ch (Member (m_id (author self))) = Some allow_all"
    unfolding e by (auto simp: perform_def call_raises_def update_channel_def respond_eq r)
  show "\<forall>c. c \<noteq> next_id w \<longrightarrow> channels (snd (TicketModal_on_submit self i w)) c = channels w c"
    unfolding e by (simp add: perform_def call_raises_def update_channel_def respond_eq r)
qed

lemma intake_create_fails:
  assumes "nick self = l1 @ n @ r1" and "padded l1 n r1"
    and "tm_age self = l2 @ g @ r2" and "padded l2 g r2"
    and "tm_purpose self = l3 @ p @ r3" and "padded l3 p r3"
    and "tm_from_where self = l4 @ f @ r4" and "padded l4 f r4"
    and "tm_read_rules self = l5 @ q @ r5" and "padded l5 q r5"
    and "3 \<le> length n" and "length n \<le> 50"
    and "1 \<le> length g" and "length g \<le> 2" and "\<forall>c\<in>set g. py_isdigit_char c"
    and "50 \<le> length p" and "length p \<le> 500"
    and "1 \<le> length f" and "length f \<le> 50"
    and "1 \<le> length q" and "length q \<le> 20"
    and "null_or_int (settings_get (settings w) ''staff_role_id'')"
    and "null_or_int (settings_get (settings w) ''ticket_category_id'')"
    and "\<forall>nm ovs cat tp. raises w (CreateTextChannel nm ovs cat tp)"
  shows "fst (TicketModal_on_submit self i w) = Raised HTTPException"
    and "channels (snd (TicketModal_on_submit self i w)) = channels w"
proof -
  from intake_valid[OF assms(1-23), of i] obtain ovs cat where
    e: "TicketModal_on_submit self i w =
        (let (ok, w1) = perform (CreateTextChannel (take 90 (''ticket-'' @ m_name (author self)))
                                   ([(DefaultRole, hide_channel),
                                     (Member (m_id (author self)), allow_all),
                                     (Member (guild_me w), allow_all)] @ ovs) cat
                                   (''ticket_owner:'' @ py_str (m_id (author self)))) w
         in if \<not> ok then (Raised HTTPException, w1)
            else (let (ok2, w2) = perform (ChannelSend (next_id w)
                                             (TicketPost (author self) n g p f q)) w1
                  in if \<not> ok2 then (Raised HTTPException, w2)
                     else respond i (MsgTicketCreated (next_id w)) w2))"
    by blast
  show "fst (TicketModal_on_submit self i w) = Raised HTTPException"
    and "channels (snd (TicketModal_on_submit self i w)) = channels w"
    unfolding e using assms(24) by (simp_all add: perform_def)
qed

text \<open>The decimal text of an integer determines it.\<close>

lemma nat_digits_hd: "hd (nat_digits n) \<noteq> CHR ''-''"
proof -
  from nat_digits_decimal[of n] have "is_decimal (hd (nat_digits n))"
    by (cases "nat_digits n") auto
  then show ?thesis by (auto simp: is_decimal_def)
qed

lemma nat_digits_inj: "nat_digits a = nat_digits b \<Longrightarrow> a = b"
  by (metis digits_value_nat_digits)

lemma py_str_inj: "py_str a = py_str b \<Longrightarrow> a = b"
proof -
  assume e: "py_str a = py_str b"
  show ?thesis
  proof (cases "a < 0"; cases "b < 0")
    assume "a < 0" "b < 0"
    with e have "nat (- a) = nat (- b)" by (simp add: py_str_def nat_digits_inj)
    with \<open>a < 0\<close> \<open>b < 0\<close> show ?thesis by simp
  next
    assume "a < 0" "\<not> b < 0"
    with e have "CHR ''-'' # nat_digits (nat (- a)) = nat_digits (nat b)" by (simp add: py_str_def)
    then have "hd (nat_digits (nat b)) = CHR ''-''" by (metis list.sel(1))
    with nat_digits_hd show ?thesis by blast
  next
    assume "\<not> a < 0" "b < 0"
    with e have "CHR ''-'' # nat_digits (nat (- b)) = nat_digits (nat a)" by (simp add: py_str_def)
    then have "hd (nat_digits (nat a)) = CHR ''-''" by (metis list.sel(1))
    with nat_digits_hd show ?thesis by blast
  next
    assume "\<not> a < 0" "\<not> b < 0"
    with e have "nat a = nat b" by (simp add: py_str_def nat_digits_inj)
    with \<open>\<not> a < 0\<close> \<open>\<not> b < 0\<close> show ?thesis by simp
  qed
qed

lemmas form_defs = example_form_def form_submit_def padded_def py_isspace_def py_isdigit_char_def

section \<open>Intake: rejected submissions\<close>




section \<open>Intake: the purpose boundary\<close>

text \<open>
  Claim C9, as the specification states it, fails: a purpose of exactly 50 characters
  whose last character is a space has 49 characters once trimmed, and the submission is
  rejected with the message of the purpose field, with the other values those of a
  submission that is accepted.
\<close>

theorem purpose_fifty_rejected:
  "length (tm_purpose (example_form\<lparr>tm_purpose := replicate 49 (CHR ''a'') @ '' ''\<rparr>)) = 50
   \<and> TicketModal_on_submit (example_form\<lparr>tm_purpose := replicate 49 (CHR ''a'') @ '' ''\<rparr>)
        form_submit guild0
       = (Replied MsgPurposeLength, guild0\<lparr>trace := [(Respond 7004 MsgPurposeLength, True)]\<rparr>)
   \<and> fst (TicketModal_on_submit example_form form_submit guild0) = Replied (MsgTicketCreated 501)"
  by (simp add: TicketModal_on_submit_def example_form_def form_submit_def guild0_def
        requester_def strip_def strip_with_def py_isspace_def isdigit_def py_isdigit_char_def
        settings_get_def default_settings_def get_role_def perform_def call_raises_def
        update_channel_def respond_eq Let_def)

text \<open>
  Claim C9, amended.  With the four other values valid once trimmed: a submission whose
  purpose has exactly 49 characters, or fewer than 50 once trimmed, is rejected with the
  message of the purpose field and no channel is created.  A submission whose trimmed
  purpose \<open>p\<close> has 50 characters (or any number up to 500) is accepted when the two
  identity settings the handler reads are null or integers and no call of the platform
  raises: the requester is told of the new channel, which has the next identity, the
  name \<open>ticket-\<close> and the requester's name, the topic \<open>ticket_owner:\<close> followed by the
  decimal text of the requester's identity (a topic that no other identity gives), the
  trimmed values as its one post under the initial view, and access for the requester;
  every other channel is as it was.  When the creation of the channel raises, the
  exception leaves the handler and no channel is created.
\<close>

theorem purpose_boundary:
  assumes "nick self = l1 @ n @ r1" and "padded l1 n r1"
    and "tm_age self = l2 @ g @ r2" and "padded l2 g r2"
    and "tm_purpose self = l3 @ p @ r3" and "padded l3 p r3"
    and "tm_from_where self = l4 @ f @ r4" and "padded l4 f r4"
    and "tm_read_rules self = l5 @ q @ r5" and "padded l5 q r5"
    and "3 \<le> length n" and "length n \<le> 50"
    and "1 \<le> length g" and "length g \<le> 2" and "\<forall>c\<in>set g. py_isdigit_char c"
    and "1 \<le> length f" and "length f \<le> 50"
    and "1 \<le> length q" and "length q \<le> 20"
  shows "(length (tm_purpose self) = 49 \<or> length p < 50 \<longrightarrow>
            rejected_with MsgPurposeLength i w (TicketModal_on_submit self i w)
            \<and> channels (snd (TicketModal_on_submit self i w)) = channels w
            \<and> next_id (snd (TicketModal_on_submit self i w)) = next_id w)
       \<and> (50 \<le> length p \<and> length p \<le> 500
          \<and> null_or_int (settings_get (settings w) ''staff_role_id'')
          \<and> null_or_int (settings_get (settings w) ''ticket_category_id'')
          \<and> (\<forall>c. \<not> raises w c) \<longrightarrow>
            fst (TicketModal_on_submit self i w) = Replied (MsgTicketCreated (next_id w))
            \<and> (\<exists>ch. channels (snd (TicketModal_on_submit self i w)) (next_id w) = Some ch
                  \<and> ch_name ch = take 90 (''ticket-'' @ m_name (author self))
                  \<and> ch_topic ch = ''ticket_owner:'' @ py_str (m_id (author self))
                  \<and> (\<forall>b. ch_topic ch = ''ticket_owner:'' @ py_str b \<longrightarrow> b = m_id (author self))
                  \<and> ch_posts ch = [TicketPost (author self) n g p f q]
                  \<and> ch_view ch = Some InitialShown
                  \<and> ch_overwrites ch (Member (m_id (author self))) = Some allow_all)
            \<and> (\<forall>c. c \<noteq> next_id w \<longrightarrow>
                  channels (snd (TicketModal_on_submit self i w)) c = channels w c))
       \<and> (50 \<le> length p \<and> length p \<le> 500
          \<and> null_or_int (settings_get (settings w) ''staff_role_id'')
          \<and> null_or_int (settings_get (settings w) ''ticket_category_id'')
          \<and> (\<forall>nm ovs cat tp. raises w (CreateTextChannel nm ovs cat tp)) \<longrightarrow>
            fst (TicketModal_on_submit self i w) = Raised HTTPException
            \<and> channels (snd (TicketModal_on_submit self i w)) = channels w)"
proof (intro conjI impI; (elim conjE)?)
  let ?R = "TicketModal_on_submit self i w"
  {
    assume "length (tm_purpose self) = 49 \<or> length p < 50"
    with assms(5) have "length p < 50 \<or> 500 < length p" by auto
    from intake_purpose[OF assms(1-6) assms(11-15) this, of i w]
    have "rejected_with MsgPurposeLength i w ?R" by (simp add: respond_rejected)
    with rejected_keeps[OF this]
    show "rejected_with MsgPurposeLength i w ?R" and "channels (snd ?R) = channels w"
      and "next_id (snd ?R) = next_id w" by simp_all
  }
  {
    assume a: "50 \<le> length p" "length p \<le> 500"
      "null_or_int (settings_get (settings w) ''staff_role_id'')"
      "null_or_int (settings_get (settings w) ''ticket_category_id'')"
      and r: "\<forall>c. \<not> raises w c"
    note acc = intake_accepts[OF assms(1-15) a(1,2) assms(16-19) a(3,4) r, of i]
    from acc(1) show "fst ?R = Replied (MsgTicketCreated (next_id w))" .
    from acc(2) py_str_inj
    show "\<exists>ch. channels (snd ?R) (next_id w) = Some ch
                  \<and> ch_name ch = take 90 (''ticket-'' @ m_name (author self))
                  \<and> ch_topic ch = ''ticket_owner:'' @ py_str (m_id (author self))
                  \<and> (\<forall>b. ch_topic ch = ''ticket_owner:'' @ py_str b \<longrightarrow> b = m_id (author self))
                  \<and> ch_posts ch = [TicketPost (author self) n g p f q]
                  \<and> ch_view ch = Some InitialShown
                  \<and> ch_overwrites ch (Member (m_id (author self))) = Some allow_all"
      by fastforce
    from acc(3) show "\<forall>c. c \<noteq> next_id w \<longrightarrow> channels (snd ?R) c = channels w c" .
  }
  {
    assume a: "50 \<le> length p" "length p \<le> 500"
      "null_or_int (settings_get (settings w) ''staff_role_id'')"
      "null_or_int (settings_get (settings w) ''ticket_category_id'')"
      and r: "\<forall>nm ovs cat tp. raises w (CreateTextChannel nm ovs cat tp)"
    note f = intake_create_fails[OF assms(1-15) a(1,2) assms(16-19) a(3,4) r, of i]
    from f show "fst ?R = Raised HTTPException" and "channels (snd ?R) = channels w" .
  }
qed

theorem purpose_boundary_witness:
  "tm_purpose example_form = [] @ replicate 50 (CHR ''a'') @ []
   \<and> padded [] (replicate 50 (CHR ''a'')) []
   \<and> null_or_int (settings_get (settings guild0) ''staff_role_id'')
   \<and> null_or_int (settings_get (settings guild0) ''ticket_category_id'')
   \<and> (\<forall>c. \<not> raises guild0 c)
   \<and> fst (TicketModal_on_submit example_form form_submit guild0) = Replied (MsgTicketCreated 501)
   \<and> (\<exists>ch. channels (snd (TicketModal_on_submit example_form form_submit guild0)) 501 = Some ch
          \<and> ch_topic ch = ''ticket_owner:1'')
   \<and> length (tm_purpose (example_form\<lparr>tm_purpose := replicate 49 (CHR ''a'')\<rparr>)) = 49
   \<and> rejected_with MsgPurposeLength form_submit guild0
        (TicketModal_on_submit (example_form\<lparr>tm_purpose := replicate 49 (CHR ''a'')\<rparr>)
           form_submit guild0)"
proof -
  note a = purpose_boundary [of example_form
      "[]" "''Steve''" "[]" "[]" "''17''" "[]" "[]" "replicate 50 (CHR ''a'')" "[]"
      "[]" "''a friend''" "[]" "[]" "''yes''" "[]" form_submit guild0]
  note b = purpose_boundary [of "example_form\<lparr>tm_purpose := replicate 49 (CHR ''a'')\<rparr>"
      "[]" "''Steve''" "[]" "[]" "''17''" "[]" "[]" "replicate 49 (CHR ''a'')" "[]"
      "[]" "''a friend''" "[]" "[]" "''yes''" "[]" form_submit guild0]
  have h: "tm_purpose example_form = [] @ replicate 50 (CHR ''a'') @ []"
    "padded [] (replicate 50 (CHR ''a'')) []"
    "null_or_int (settings_get (settings guild0) ''staff_role_id'')"
    "null_or_int (settings_get (settings guild0) ''ticket_category_id'')"
    "\<forall>c. \<not> raises guild0 c"
    "length (tm_purpose (example_form\<lparr>tm_purpose := replicate 49 (CHR ''a'')\<rparr>)) = 49"
    by (simp_all add: form_defs guild0_def settings_get_def default_settings_def)
  from a have "fst (TicketModal_on_submit example_form form_submit guild0)
                 = Replied (MsgTicketCreated 501)
     \<and> (\<exists>ch. channels (snd (TicketModal_on_submit example_form form_submit guild0)) 501 = Some ch
          \<and> ch_topic ch = ''ticket_owner:1'')"
    by (simp add: form_defs guild0_def settings_get_def default_settings_def requester_def
          py_str_def nat_digits_one) blast
  moreover from b have "rejected_with MsgPurposeLength form_submit guild0
        (TicketModal_on_submit (example_form\<lparr>tm_purpose := replicate 49 (CHR ''a'')\<rparr>)
           form_submit guild0)"
    by (simp add: form_defs)
  ultimately show ?thesis using h by simp
qed

section \<open>Accepting: calls and their effects\<close>

lemma perform_fst: "fst (perform c w) = (\<not> call_raises w c)"
  by (simp add: perform_def)

lemma perform_trace: "trace (snd (perform c w)) = trace w @ [(c, \<not> call_raises w c)]"
  by (simp add: perform_def)

lemma perform_field:
  "nick_of (snd (perform c w)) = (if call_raises w c then nick_of w else nick_of (effect c w))"
  "roles_of (snd (perform c w)) = (if call_raises w c then roles_of w else roles_of (effect c w))"
  "channels (snd (perform c w)) = (if call_raises w c then channels w else channels (effect c w))"
  "inbox (snd (perform c w)) = (if call_raises w c then inbox w else inbox (effect c w))"
  "log_tasks (snd (perform c w)) = log_tasks w"
  by (simp_all add: perform_def) (cases c; simp add: update_channel_def split: option.splits)

lemma member_call_keeps:
  "channels (snd (perform (MemberEdit m n) w)) = channels w"
  "channels (snd (perform (AddRoles m r) w)) = channels w"
  "channels (snd (perform (MemberSend m d) w)) = channels w"
  "channels (snd (perform (Respond a x) w)) = channels w"
  by (simp_all add: perform_def)

lemma send_log_embed_keeps:
  "trace (send_log_embed l t m ow c r w) = trace w"
  "channels (send_log_embed l t m ow c r w) = channels w"
  "raises (send_log_embed l t m ow c r w) = raises w"
  "nick_of (send_log_embed l t m ow c r w) = nick_of w"
  "roles_of (send_log_embed l t m ow c r w) = roles_of w"
  "inbox (send_log_embed l t m ow c r w) = inbox w"
  "settings (send_log_embed l t m ow c r w) = settings w"
  by (simp_all add: send_log_embed_def Let_def split: sum.splits)

lemma send_log_embed_tasks:
  "settings_get (settings w) ''log_channel_id'' = JInt t \<Longrightarrow> t \<noteq> 0 \<Longrightarrow>
     log_tasks (send_log_embed l tx m ow c r w) =
       log_tasks w @ [\<lparr>le_target = t, le_level = l, le_text = tx, le_moderator = m,
                        le_owner = nonzero ow, le_channel = nonzero c, le_reason = nonempty r\<rparr>]"
  "settings_get (settings w) ''log_channel_id'' = JNull \<Longrightarrow>
     log_tasks (send_log_embed l tx m ow c r w) = log_tasks w"
  by (simp_all add: send_log_embed_def Let_def)

lemma delete_keeps:
  "log_tasks (snd (perform (ChannelDelete c) w)) = log_tasks w"
  "nick_of (snd (perform (ChannelDelete c) w)) = nick_of w"
  "roles_of (snd (perform (ChannelDelete c) w)) = roles_of w"
  "inbox (snd (perform (ChannelDelete c) w)) = inbox w"
  "trace (snd (perform (ChannelDelete c) w))
     = trace w @ [(ChannelDelete c, \<not> raises w (ChannelDelete c) \<and> channels w c \<noteq> None)]"
  "c' \<noteq> c \<Longrightarrow> channels (snd (perform (ChannelDelete c) w)) c' = channels w c'"
  "\<not> raises w (ChannelDelete c) \<Longrightarrow> channels (snd (perform (ChannelDelete c) w)) c = None"
  by (auto simp: perform_def call_raises_def)

text \<open>The handler when the requester is not a member of the guild, and when it is.\<close>

lemma accept_gone:
  assumes "taker_id self = Some (u_id (i_user i)) \<or> u_admin (i_user i)"
    and "m_id (tv_owner self) \<notin> guild_members w"
  shows "accept_final self i w =
     (if raises w (Respond (i_id i) MsgAccepted)
      then (ReplyFailed MsgAccepted, w\<lparr>trace := trace w @ [(Respond (i_id i) MsgAccepted, False)]\<rparr>)
      else (Replied MsgAccepted,
            (let w5 = send_log_embed Info (LogAccepted (u_id (i_user i)) self)
                        (Some (u_id (i_user i))) (Some (m_id (tv_owner self))) (i_channel i) None
                        (w\<lparr>trace := trace w @ [(Respond (i_id i) MsgAccepted, True)]\<rparr>)
             in case i_channel i of None \<Rightarrow> w5 | Some c \<Rightarrow> snd (perform (ChannelDelete c) w5))))"
  using assms
  by (auto simp: accept_final_def is_taker_or_admin_def get_member_def perform_def Let_def)

lemma accept_present:
  assumes "taker_id self = Some (u_id (i_user i)) \<or> u_admin (i_user i)"
    and "m_id (tv_owner self) \<in> guild_members w"
    and "null_or_int (settings_get (settings w) ''accepted_role_id'')
         \<or> \<not> truthy (settings_get (settings w) ''accepted_role_id'')"
  shows "\<exists>d. trace (snd (accept_final self i w)) = trace w
       @ [(MemberEdit (m_id (tv_owner self)) (tv_nick_text self),
           \<not> raises w (MemberEdit (m_id (tv_owner self)) (tv_nick_text self)))]
       @ (case settings_get (settings w) ''accepted_role_id'' of
            JInt rid \<Rightarrow>
              if rid \<noteq> 0 \<and> rid \<in> guild_roles w
              then [(AddRoles (m_id (tv_owner self)) rid,
                     \<not> raises w (AddRoles (m_id (tv_owner self)) rid))]
              else []
          | _ \<Rightarrow> [])
       @ [(MemberSend (m_id (tv_owner self)) (AcceptedDM d),
           \<not> raises w (MemberSend (m_id (tv_owner self)) (AcceptedDM d))),
          (Respond (i_id i) MsgAccepted, \<not> raises w (Respond (i_id i) MsgAccepted))]
       @ (if raises w (Respond (i_id i) MsgAccepted) then []
          else case i_channel i of
                 None \<Rightarrow> []
               | Some c \<Rightarrow> [(ChannelDelete c,
                             \<not> raises w (ChannelDelete c) \<and> channels w c \<noteq> None)])"
    and "fst (accept_final self i w)
           = (if raises w (Respond (i_id i) MsgAccepted) then ReplyFailed MsgAccepted
              else Replied MsgAccepted)"
proof -
  obtain rv where rv: "settings_get (settings w) ''accepted_role_id'' = rv" by simp
  with assms(3) have n: "null_or_int rv \<or> \<not> truthy rv" by simp
  have t: "is_taker_or_admin self i" using assms(1) by (auto simp: is_taker_or_admin_def)
  show "fst (accept_final self i w)
           = (if raises w (Respond (i_id i) MsgAccepted) then ReplyFailed MsgAccepted
              else Replied MsgAccepted)"
    using t assms(2) n rv
    by (cases rv)
       (simp_all add: accept_final_def get_member_def get_role_def
          split_def Let_def perform_fst perform_keeps)
  show "\<exists>d. trace (snd (accept_final self i w)) = trace w
       @ [(MemberEdit (m_id (tv_owner self)) (tv_nick_text self),
           \<not> raises w (MemberEdit (m_id (tv_owner self)) (tv_nick_text self)))]
       @ (case settings_get (settings w) ''accepted_role_id'' of
            JInt rid \<Rightarrow>
              if rid \<noteq> 0 \<and> rid \<in> guild_roles w
              then [(AddRoles (m_id (tv_owner self)) rid,
                     \<not> raises w (AddRoles (m_id (tv_owner self)) rid))]
              else []
          | _ \<Rightarrow> [])
       @ [(MemberSend (m_id (tv_owner self)) (AcceptedDM d),
           \<not> raises w (MemberSend (m_id (tv_owner self)) (AcceptedDM d))),
          (Respond (i_id i) MsgAccepted, \<not> raises w (Respond (i_id i) MsgAccepted))]
       @ (if raises w (Respond (i_id i) MsgAccepted) then []
          else case i_channel i of
                 None \<Rightarrow> []
               | Some c \<Rightarrow> [(ChannelDelete c,
                             \<not> raises w (ChannelDelete c) \<and> channels w c \<noteq> None)])"
    using t assms(2) n rv
    by (cases rv; cases "i_channel i")
       (simp_all add: accept_final_def get_member_def get_role_def
          split_def Let_def perform_fst perform_trace perform_keeps member_call_keeps
          send_log_embed_keeps delete_keeps call_raises_def)
qed

lemma accept_present_effects:
  assumes "taker_id self = Some (u_id (i_user i)) \<or> u_admin (i_user i)"
    and "m_id (tv_owner self) \<in> guild_members w"
    and "null_or_int (settings_get (settings w) ''accepted_role_id'')
         \<or> \<not> truthy (settings_get (settings w) ''accepted_role_id'')"
  shows "nick_of (snd (accept_final self i w)) (m_id (tv_owner self))
           = (if raises w (MemberEdit (m_id (tv_owner self)) (tv_nick_text self))
              then nick_of w (m_id (tv_owner self)) else Some (tv_nick_text self))"
    and "\<not> truthy (settings_get (settings w) ''accepted_role_id'')
           \<Longrightarrow> roles_of (snd (accept_final self i w)) = roles_of w"
    and "settings_get (settings w) ''accepted_role_id'' = JInt rid \<Longrightarrow> rid \<noteq> 0
           \<Longrightarrow> rid \<in> guild_roles w
           \<Longrightarrow> \<not> raises w (AddRoles (m_id (tv_owner self)) rid)
           \<Longrightarrow> rid \<in> roles_of (snd (accept_final self i w)) (m_id (tv_owner self))"
    and "\<not> raises w (Respond (i_id i) MsgAccepted) \<Longrightarrow> i_channel i = Some c
           \<Longrightarrow> \<not> raises w (ChannelDelete c)
           \<Longrightarrow> channels (snd (accept_final self i w)) c = None"
proof -
  obtain rv where rv: "settings_get (settings w) ''accepted_role_id'' = rv" by simp
  with assms(3) have n: "null_or_int rv \<or> \<not> truthy rv" by simp
  have t: "is_taker_or_admin self i" using assms(1) by (auto simp: is_taker_or_admin_def)
  note defs = accept_final_def get_member_def get_role_def split_def Let_def perform_fst
    perform_field perform_keeps send_log_embed_keeps call_raises_def
  show "nick_of (snd (accept_final self i w)) (m_id (tv_owner self))
           = (if raises w (MemberEdit (m_id (tv_owner self)) (tv_nick_text self))
              then nick_of w (m_id (tv_owner self)) else Some (tv_nick_text self))"
    using t assms(2) n rv
    by (cases rv; cases "i_channel i") (simp_all add: defs)
  show "\<not> truthy (settings_get (settings w) ''accepted_role_id'')
           \<Longrightarrow> roles_of (snd (accept_final self i w)) = roles_of w"
    using t assms(2) n rv
    by (cases rv; cases "i_channel i") (simp_all add: defs)
  show "settings_get (settings w) ''accepted_role_id'' = JInt rid \<Longrightarrow> rid \<noteq> 0
           \<Longrightarrow> rid \<in> guild_roles w
           \<Longrightarrow> \<not> raises w (AddRoles (m_id (tv_owner self)) rid)
           \<Longrightarrow> rid \<in> roles_of (snd (accept_final self i w)) (m_id (tv_owner self))"
    using t assms(2)
    by (cases "i_channel i") (simp_all add: defs)
  show "\<not> raises w (Respond (i_id i) MsgAccepted) \<Longrightarrow> i_channel i = Some c
           \<Longrightarrow> \<not> raises w (ChannelDelete c)
           \<Longrightarrow> channels (snd (accept_final self i w)) c = None"
    using t assms(2) n rv
    by (cases rv) (simp_all add: defs)
qed

section \<open>Accepting: the side effects\<close>

text \<open>
  Claim C6, as the specification states it, fails: the three calls on the requester are
  made only when the requester is found among the members of the guild.  With no
  accepted role configured and the requester gone, the claimant's accept makes two calls,
  the acknowledgement and the deletion of the channel: neither the change of nickname nor
  the direct message is attempted.
\<close>

theorem requester_gone_counterexample:
  "taker_id claimed_view = Some (u_id (i_user staff_press))
   \<and> settings_get (settings gone_guild) ''accepted_role_id'' = JNull
   \<and> fst (accept_final claimed_view staff_press gone_guild) = Replied MsgAccepted
   \<and> trace (snd (accept_final claimed_view staff_press gone_guild))
       = [(Respond 7001 MsgAccepted, True), (ChannelDelete 500, True)]
   \<and> nick_of (snd (accept_final claimed_view staff_press gone_guild)) = nick_of gone_guild
   \<and> inbox (snd (accept_final claimed_view staff_press gone_guild)) = []"
  by (simp add: accept_final_def is_taker_or_admin_def get_member_def perform_def Let_def
        claimed_view_def staff_press_def gone_guild_def guild0_def requester_def
        settings_get_def default_settings_def send_log_embed_def call_raises_def)

text \<open>
  Claim C6, amended.  For an accept by the claimant or an administrator, with the
  requester a member of the guild and the setting \<open>accepted_role_id\<close> null, an integer or
  otherwise falsy.  When no accepted role is configured, the calls made are, in this
  order, the change of nickname, the direct message and the acknowledgement, each
  attempted whether or not the ones before it raised, and no role is granted; the
  deletion of the channel follows when the acknowledgement did not raise.  When a role is
  configured and exists, the grant of the role is attempted between the change of nickname
  and the direct message, likewise whatever the others do, and the requester holds the
  role unless that call raises.  The outcome is the acknowledgement, delivered unless the
  acknowledging call itself raises, whatever the three calls on the requester did; the
  nickname is the submitted one unless its call raised; and the channel no longer exists
  when the acknowledgement was delivered and the deletion did not raise.
\<close>

theorem accept_side_effects:
  assumes "taker_id self = Some (u_id (i_user i)) \<or> u_admin (i_user i)"
    and "m_id (tv_owner self) \<in> guild_members w"
    and "null_or_int (settings_get (settings w) ''accepted_role_id'')
         \<or> \<not> truthy (settings_get (settings w) ''accepted_role_id'')"
  shows "(\<not> truthy (settings_get (settings w) ''accepted_role_id'') \<longrightarrow>
            (\<exists>d. trace (snd (accept_final self i w))
                 = trace w
                   @ [(MemberEdit (m_id (tv_owner self)) (tv_nick_text self),
                    \<not> raises w (MemberEdit (m_id (tv_owner self)) (tv_nick_text self))),
                      (MemberSend (m_id (tv_owner self)) (AcceptedDM d),
                    \<not> raises w (MemberSend (m_id (tv_owner self)) (AcceptedDM d))),
                      (Respond (i_id i) MsgAccepted, \<not> raises w (Respond (i_id i) MsgAccepted))]
                   @ (if raises w (Respond (i_id i) MsgAccepted) then []
                   else case i_channel i of
                          None \<Rightarrow> []
                        | Some c \<Rightarrow> [(ChannelDelete c,
                                      \<not> raises w (ChannelDelete c) \<and> channels w c \<noteq> None)]))
            \<and> roles_of (snd (accept_final self i w)) = roles_of w)
       \<and> (\<forall>rid. settings_get (settings w) ''accepted_role_id'' = JInt rid \<and> rid \<noteq> 0
                \<and> rid \<in> guild_roles w \<longrightarrow>
            (\<exists>d. trace (snd (accept_final self i w))
                 = trace w
                   @ [(MemberEdit (m_id (tv_owner self)) (tv_nick_text self),
                    \<not> raises w (MemberEdit (m_id (tv_owner self)) (tv_nick_text self))),
                      (AddRoles (m_id (tv_owner self)) rid,
                    \<not> raises w (AddRoles (m_id (tv_owner self)) rid)),
                      (MemberSend (m_id (tv_owner self)) (AcceptedDM d),
                    \<not> raises w (MemberSend (m_id (tv_owner self)) (AcceptedDM d))),
                      (Respond (i_id i) MsgAccepted, \<not> raises w (Respond (i_id i) MsgAccepted))]
                   @ (if raises w (Respond (i_id i) MsgAccepted) then []
                   else case i_channel i of
                          None \<Rightarrow> []
                        | Some c \<Rightarrow> [(ChannelDelete c,
                                      \<not> raises w (ChannelDelete c) \<and> channels w c \<noteq> None)]))
            \<and> (\<not> raises w (AddRoles (m_id (tv_owner self)) rid) \<longrightarrow>
                  rid \<in> roles_of (snd (accept_final self i w)) (m_id (tv_owner self))))
       \<and> fst (accept_final self i w)
           = (if raises w (Respond (i_id i) MsgAccepted) then ReplyFailed MsgAccepted
              else Replied MsgAccepted)
       \<and> nick_of (snd (accept_final self i w)) (m_id (tv_owner self))
           = (if raises w (MemberEdit (m_id (tv_owner self)) (tv_nick_text self))
              then nick_of w (m_id (tv_owner self)) else Some (tv_nick_text self))
       \<and> (\<forall>c. \<not> raises w (Respond (i_id i) MsgAccepted) \<and> i_channel i = Some c
              \<and> \<not> raises w (ChannelDelete c) \<longrightarrow>
            channels (snd (accept_final self i w)) c = None)"
proof (intro conjI impI allI; (elim conjE)?)
  note p = accept_present[OF assms]
  note q = accept_present_effects[OF assms]
  {
    assume n: "\<not> truthy (settings_get (settings w) ''accepted_role_id'')"
    from p(1) n show "\<exists>d. trace (snd (accept_final self i w))
                 = trace w
                   @ [(MemberEdit (m_id (tv_owner self)) (tv_nick_text self),
                    \<not> raises w (MemberEdit (m_id (tv_owner self)) (tv_nick_text self))),
                      (MemberSend (m_id (tv_owner self)) (AcceptedDM d),
                    \<not> raises w (MemberSend (m_id (tv_owner self)) (AcceptedDM d))),
                      (Respond (i_id i) MsgAccepted, \<not> raises w (Respond (i_id i) MsgAccepted))]
                   @ (if raises w (Respond (i_id i) MsgAccepted) then []
                   else case i_channel i of
                          None \<Rightarrow> []
                        | Some c \<Rightarrow> [(ChannelDelete c,
                                      \<not> raises w (ChannelDelete c) \<and> channels w c \<noteq> None)])"
      by (cases "settings_get (settings w) ''accepted_role_id''") simp_all
    from q(2)[OF n] show "roles_of (snd (accept_final self i w)) = roles_of w" .
  }
  {
    fix rid
    assume r: "settings_get (settings w) ''accepted_role_id'' = JInt rid" "rid \<noteq> 0"
      "rid \<in> guild_roles w"
    from p(1) r show "\<exists>d. trace (snd (accept_final self i w))
                 = trace w
                   @ [(MemberEdit (m_id (tv_owner self)) (tv_nick_text self),
                    \<not> raises w (MemberEdit (m_id (tv_owner self)) (tv_nick_text self))),
                      (AddRoles (m_id (tv_owner self)) rid,
                    \<not> raises w (AddRoles (m_id (tv_owner self)) rid)),
                      (MemberSend (m_id (tv_owner self)) (AcceptedDM d),
                    \<not> raises w (MemberSend (m_id (tv_owner self)) (AcceptedDM d))),
                      (Respond (i_id i) MsgAccepted, \<not> raises w (Respond (i_id i) MsgAccepted))]
                   @ (if raises w (Respond (i_id i) MsgAccepted) then []
                   else case i_channel i of
                          None \<Rightarrow> []
                        | Some c \<Rightarrow> [(ChannelDelete c,
                                      \<not> raises w (ChannelDelete c) \<and> channels w c \<noteq> None)])"
      by simp
    assume "\<not> raises w (AddRoles (m_id (tv_owner self)) rid)"
    from q(3)[OF r this]
    show "rid \<in> roles_of (snd (accept_final self i w)) (m_id (tv_owner self))" .
  }
  from p(2) show "fst (accept_final self i w)
           = (if raises w (Respond (i_id i) MsgAccepted) then ReplyFailed MsgAccepted
              else Replied MsgAccepted)" .
  from q(1) show "nick_of (snd (accept_final self i w)) (m_id (tv_owner self))
           = (if raises w (MemberEdit (m_id (tv_owner self)) (tv_nick_text self))
              then nick_of w (m_id (tv_owner self)) else Some (tv_nick_text self))" .
  {
    fix c
    assume "\<not> raises w (Respond (i_id i) MsgAccepted)" "i_channel i = Some c"
      "\<not> raises w (ChannelDelete c)"
    from q(4)[OF this] show "channels (snd (accept_final self i w)) c = None" .
  }
qed

theorem accept_side_effects_witness:
  "taker_id claimed_view = Some (u_id (i_user staff_press))
   \<and> m_id (tv_owner claimed_view) \<in> guild_members guild0
   \<and> \<not> truthy (settings_get (settings guild0) ''accepted_role_id'')
   \<and> (\<exists>d. trace (snd (accept_final claimed_view staff_press guild0))
            = [(MemberEdit 1 ''Steve'', True), (MemberSend 1 (AcceptedDM d), True),
               (Respond 7001 MsgAccepted, True), (ChannelDelete 500, True)])
   \<and> roles_of (snd (accept_final claimed_view staff_press guild0)) = roles_of guild0
   \<and> channels (snd (accept_final claimed_view staff_press guild0)) 500 = None
   \<and> m_id (tv_owner claimed_view) \<in> guild_members strict_guild
   \<and> settings_get (settings strict_guild) ''accepted_role_id'' = JInt 20
   \<and> raises strict_guild (MemberEdit 1 ''Steve'')
   \<and> (\<exists>d. trace (snd (accept_final claimed_view staff_press strict_guild))
            = [(MemberEdit 1 ''Steve'', False), (AddRoles 1 20, True),
               (MemberSend 1 (AcceptedDM d), True),
               (Respond 7001 MsgAccepted, True), (ChannelDelete 500, True)])
   \<and> 20 \<in> roles_of (snd (accept_final claimed_view staff_press strict_guild)) 1
   \<and> fst (accept_final claimed_view staff_press strict_guild) = Replied MsgAccepted"
proof -
  note a = accept_side_effects [of claimed_view staff_press guild0]
  note b = accept_side_effects [of claimed_view staff_press strict_guild]
  have h: "taker_id claimed_view = Some (u_id (i_user staff_press))"
    "m_id (tv_owner claimed_view) \<in> guild_members guild0"
    "\<not> truthy (settings_get (settings guild0) ''accepted_role_id'')"
    "m_id (tv_owner claimed_view) \<in> guild_members strict_guild"
    "settings_get (settings strict_guild) ''accepted_role_id'' = JInt 20"
    "raises strict_guild (MemberEdit 1 ''Steve'')"
    by (simp_all add: claimed_view_def staff_press_def strict_guild_def guild0_def requester_def
          settings_get_def default_settings_def)
  have g: "i_channel staff_press = Some 500" "i_id staff_press = 7001"
    "m_id (tv_owner claimed_view) = 1" "tv_nick_text claimed_view = ''Steve''"
    "trace guild0 = []" "trace strict_guild = []"
    "channels guild0 500 \<noteq> None" "channels strict_guild 500 \<noteq> None"
    "\<And>c. raises guild0 c = False"
    "\<And>a x. raises strict_guild (Respond a x) = False"
    "\<And>a x. raises strict_guild (MemberSend a x) = False"
    "\<And>a x. raises strict_guild (AddRoles a x) = False"
    "\<And>a. raises strict_guild (ChannelDelete a) = False"
    "20 \<in> guild_roles strict_guild"
    by (simp_all add: claimed_view_def staff_press_def strict_guild_def guild0_def requester_def)
  from a h g have "(\<exists>d. trace (snd (accept_final claimed_view staff_press guild0))
            = [(MemberEdit 1 ''Steve'', True), (MemberSend 1 (AcceptedDM d), True),
               (Respond 7001 MsgAccepted, True), (ChannelDelete 500, True)])
   \<and> roles_of (snd (accept_final claimed_view staff_press guild0)) = roles_of guild0
   \<and> channels (snd (accept_final claimed_view staff_press guild0)) 500 = None"
    by simp
  moreover from b h g have "(\<exists>d. trace (snd (accept_final claimed_view staff_press strict_guild))
            = [(MemberEdit 1 ''Steve'', False), (AddRoles 1 20, True),
               (MemberSend 1 (AcceptedDM d), True),
               (Respond 7001 MsgAccepted, True), (ChannelDelete 500, True)])
   \<and> 20 \<in> roles_of (snd (accept_final claimed_view staff_press strict_guild)) 1
   \<and> fst (accept_final claimed_view staff_press strict_guild) = Replied MsgAccepted"
    by simp
  ultimately show ?thesis using h by simp
qed

section \<open>Accepting: a requester who has left\<close>

text \<open>
  Claim C10, as stated, fails: the acknowledgement is awaited outside any \<open>try\<close>, before
  the log entry and the deletion.  When it raises, the exception leaves the handler: with
  a log channel configured, no entry is emitted and the ticket channel still exists.
\<close>

theorem ack_raises_counterexample:
  "taker_id claimed_view = Some (u_id (i_user staff_press))
   \<and> m_id (tv_owner claimed_view) \<notin> guild_members deaf_guild
   \<and> settings_get (settings deaf_guild) ''log_channel_id'' = JInt 600
   \<and> i_channel staff_press = Some 500
   \<and> accept_final claimed_view staff_press deaf_guild
       = (ReplyFailed MsgAccepted, deaf_guild\<lparr>trace := [(Respond 7001 MsgAccepted, False)]\<rparr>)
   \<and> log_tasks (snd (accept_final claimed_view staff_press deaf_guild)) = []
   \<and> channels (snd (accept_final claimed_view staff_press deaf_guild)) 500 = Some ticket_channel"
  by (simp add: accept_final_def is_taker_or_admin_def get_member_def perform_def Let_def
        claimed_view_def staff_press_def deaf_guild_def gone_guild_def guild0_def requester_def
        settings_get_def)

text \<open>
  Claim C10, amended.  For an accept by the claimant or an administrator with the
  requester not among the members of the guild: no nickname, role or inbox changes, and
  the first call made is the acknowledgement.  When that call raises, it is the only call
  and nothing else changes.  When it does not, the outcome is the acknowledgement, the only
  other call is the deletion of the ticket channel, which no longer exists afterwards
  unless the deletion raises, every other channel being as it was; and an entry of level
  info with the actor, the requester and the channel is added to the log when
  \<open>log_channel_id\<close> is a non-zero integer, none when it is null.
\<close>

theorem accept_without_member:
  assumes "taker_id self = Some (u_id (i_user i)) \<or> u_admin (i_user i)"
    and "m_id (tv_owner self) \<notin> guild_members w"
  shows "nick_of (snd (accept_final self i w)) = nick_of w
       \<and> roles_of (snd (accept_final self i w)) = roles_of w
       \<and> inbox (snd (accept_final self i w)) = inbox w
       \<and> (raises w (Respond (i_id i) MsgAccepted) \<longrightarrow>
            accept_final self i w
              = (ReplyFailed MsgAccepted,
                 w\<lparr>trace := trace w @ [(Respond (i_id i) MsgAccepted, False)]\<rparr>))
       \<and> (\<not> raises w (Respond (i_id i) MsgAccepted) \<longrightarrow>
            fst (accept_final self i w) = Replied MsgAccepted
            \<and> trace (snd (accept_final self i w))
                = trace w @ [(Respond (i_id i) MsgAccepted, True)]
                  @ (case i_channel i of
                       None \<Rightarrow> []
                     | Some c \<Rightarrow> [(ChannelDelete c,
                                   \<not> raises w (ChannelDelete c) \<and> channels w c \<noteq> None)])
            \<and> (\<forall>c. i_channel i = Some c \<and> \<not> raises w (ChannelDelete c) \<longrightarrow>
                  channels (snd (accept_final self i w)) c = None)
            \<and> (\<forall>c. i_channel i \<noteq> Some c \<longrightarrow>
                  channels (snd (accept_final self i w)) c = channels w c)
            \<and> (\<forall>t. settings_get (settings w) ''log_channel_id'' = JInt t \<and> t \<noteq> 0 \<longrightarrow>
                  (\<exists>e. log_tasks (snd (accept_final self i w)) = log_tasks w @ [e]
                      \<and> le_target e = t \<and> le_level e = Info
                      \<and> le_text e = LogAccepted (u_id (i_user i)) self
                      \<and> le_moderator e = Some (u_id (i_user i))
                      \<and> (m_id (tv_owner self) \<noteq> 0 \<longrightarrow> le_owner e = Some (m_id (tv_owner self)))
                      \<and> (\<forall>c. i_channel i = Some c \<and> c \<noteq> 0 \<longrightarrow> le_channel e = Some c)))
            \<and> (settings_get (settings w) ''log_channel_id'' = JNull \<longrightarrow>
                  log_tasks (snd (accept_final self i w)) = log_tasks w))"
proof -
  note e = accept_gone[OF assms]
  let ?w1 = "w\<lparr>trace := trace w @ [(Respond (i_id i) MsgAccepted, True)]\<rparr>"
  let ?w5 = "send_log_embed Info (LogAccepted (u_id (i_user i)) self)
               (Some (u_id (i_user i))) (Some (m_id (tv_owner self))) (i_channel i) None ?w1"
  have k: "nick_of (snd (accept_final self i w)) = nick_of w"
    "roles_of (snd (accept_final self i w)) = roles_of w"
    "inbox (snd (accept_final self i w)) = inbox w"
    unfolding e by (simp_all add: Let_def send_log_embed_keeps delete_keeps split: option.splits)
  have f: "raises w (Respond (i_id i) MsgAccepted) \<Longrightarrow>
            accept_final self i w
              = (ReplyFailed MsgAccepted,
                 w\<lparr>trace := trace w @ [(Respond (i_id i) MsgAccepted, False)]\<rparr>)"
    unfolding e by simp
  have s: "snd (accept_final self i w)
             = (case i_channel i of None \<Rightarrow> ?w5 | Some c \<Rightarrow> snd (perform (ChannelDelete c) ?w5))"
    and o: "fst (accept_final self i w) = Replied MsgAccepted"
    if "\<not> raises w (Respond (i_id i) MsgAccepted)"
    unfolding e using that by (simp_all add: Let_def)
  show ?thesis
  proof (intro conjI impI allI; (elim conjE)?)
    show "nick_of (snd (accept_final self i w)) = nick_of w"
      "roles_of (snd (accept_final self i w)) = roles_of w"
      "inbox (snd (accept_final self i w)) = inbox w" by (fact k)+
  next
    assume "raises w (Respond (i_id i) MsgAccepted)"
    from f[OF this] show "accept_final self i w
              = (ReplyFailed MsgAccepted,
                 w\<lparr>trace := trace w @ [(Respond (i_id i) MsgAccepted, False)]\<rparr>)" .
  next
    assume n: "\<not> raises w (Respond (i_id i) MsgAccepted)"
    from o[OF n] show "fst (accept_final self i w) = Replied MsgAccepted" .
    show "trace (snd (accept_final self i w))
                = trace w @ [(Respond (i_id i) MsgAccepted, True)]
                  @ (case i_channel i of
                       None \<Rightarrow> []
                     | Some c \<Rightarrow> [(ChannelDelete c,
                                   \<not> raises w (ChannelDelete c) \<and> channels w c \<noteq> None)])"
      unfolding s[OF n] by (simp add: send_log_embed_keeps delete_keeps split: option.splits)
    show "settings_get (settings w) ''log_channel_id'' = JNull \<Longrightarrow>
                  log_tasks (snd (accept_final self i w)) = log_tasks w"
      unfolding s[OF n] by (simp add: send_log_embed_tasks delete_keeps split: option.splits)
  next
    fix c
    assume n: "\<not> raises w (Respond (i_id i) MsgAccepted)"
      and c: "i_channel i = Some c" "\<not> raises w (ChannelDelete c)"
    show "channels (snd (accept_final self i w)) c = None"
      unfolding s[OF n] using c by (simp add: send_log_embed_keeps delete_keeps)
  next
    fix c
    assume n: "\<not> raises w (Respond (i_id i) MsgAccepted)"
      and c: "i_channel i \<noteq> Some c"
    show "channels (snd (accept_final self i w)) c = channels w c"
      unfolding s[OF n] using c
      by (cases "i_channel i") (auto simp: send_log_embed_keeps delete_keeps)
  next
    fix t
    assume n: "\<not> raises w (Respond (i_id i) MsgAccepted)"
      and t: "settings_get (settings w) ''log_channel_id'' = JInt t" "t \<noteq> 0"
    show "\<exists>e. log_tasks (snd (accept_final self i w)) = log_tasks w @ [e]
                      \<and> le_target e = t \<and> le_level e = Info
                      \<and> le_text e = LogAccepted (u_id (i_user i)) self
                      \<and> le_moderator e = Some (u_id (i_user i))
                      \<and> (m_id (tv_owner self) \<noteq> 0 \<longrightarrow> le_owner e = Some (m_id (tv_owner self)))
                      \<and> (\<forall>c. i_channel i = Some c \<and> c \<noteq> 0 \<longrightarrow> le_channel e = Some c)"
      unfolding s[OF n] using t
      by (cases "i_channel i") (simp_all add: send_log_embed_tasks delete_keeps nonzero_def)
  qed
qed

theorem accept_without_member_witness:
  "taker_id claimed_view = Some (u_id (i_user staff_press))
   \<and> m_id (tv_owner claimed_view) \<notin> guild_members gone_guild
   \<and> \<not> raises gone_guild (Respond (i_id staff_press) MsgAccepted)
   \<and> fst (accept_final claimed_view staff_press gone_guild) = Replied MsgAccepted
   \<and> trace (snd (accept_final claimed_view staff_press gone_guild))
       = [(Respond 7001 MsgAccepted, True), (ChannelDelete 500, True)]
   \<and> channels (snd (accept_final claimed_view staff_press gone_guild)) 500 = None
   \<and> (\<exists>e. log_tasks (snd (accept_final claimed_view staff_press gone_guild)) = [e]
          \<and> le_target e = 600 \<and> le_level e = Info \<and> le_owner e = Some 1
          \<and> le_channel e = Some 500)"
proof -
  note a = accept_without_member [of claimed_view staff_press gone_guild]
  have h: "taker_id claimed_view = Some (u_id (i_user staff_press))"
    "m_id (tv_owner claimed_view) \<notin> guild_members gone_guild"
    "\<not> raises gone_guild (Respond (i_id staff_press) MsgAccepted)"
    by (simp_all add: claimed_view_def staff_press_def gone_guild_def guild0_def requester_def)
  have g: "settings_get (settings gone_guild) ''log_channel_id'' = JInt 600"
    "i_channel staff_press = Some 500" "i_id staff_press = 7001"
    "trace gone_guild = []" "log_tasks gone_guild = []" "channels gone_guild 500 \<noteq> None"
    "\<not> raises gone_guild (ChannelDelete 500)"
    "m_id (tv_owner claimed_view) = 1"
    by (simp_all add: claimed_view_def staff_press_def gone_guild_def guild0_def requester_def
          settings_get_def)
  from a h g show ?thesis by simp blast
qed

end
